theory Spec2Isabelle
  imports Complex_Main
begin

section \<open>Data model\<close>

text \<open>
  main.js keeps the dungeon as an array of rows of numbers, \<^verbatim>\<open>0\<close> for a wall and
  \<^verbatim>\<open>1\<close> for a floor. A JavaScript array is modelled as a partial map from integer
  indices: reading an index that was never written gives \<^verbatim>\<open>undefined\<close> (\<open>None\<close>),
  writing any integer index stores the value, and reading or writing a property of a
  row that does not exist raises a TypeError.
\<close>

datatype cell = Wall | Floor

type_synonym row = "int \<Rightarrow> cell option"

type_synonym grid = "int \<Rightarrow> row option"

datatype error = TypeError

record room =
  cx :: int
  cy :: int

record dungeon =
  grid :: grid
  rooms :: "room list"

text \<open>\<^verbatim>\<open>grid[yy][xx] = v\<close>\<close>

definition setCell :: "grid \<Rightarrow> int \<Rightarrow> int \<Rightarrow> cell \<Rightarrow> error + grid" where
  "setCell g yy xx v =
     (case g yy of None \<Rightarrow> Inl TypeError | Some r \<Rightarrow> Inr (g(yy \<mapsto> r(xx \<mapsto> v))))"

text \<open>\<^verbatim>\<open>grid[yy][xx] === 1\<close>\<close>

definition cellIsFloor :: "grid \<Rightarrow> int \<Rightarrow> int \<Rightarrow> error + bool" where
  "cellIsFloor g yy xx =
     (case g yy of None \<Rightarrow> Inl TypeError | Some r \<Rightarrow> Inr (r xx = Some Floor))"

text \<open>\<^verbatim>\<open>dungeonGrid[cellZ] && dungeonGrid[cellZ][cellX] === 1\<close>, the guarded read of
  the collision test: a missing row or a missing cell is not a floor.\<close>

definition floorAt :: "grid \<Rightarrow> int \<Rightarrow> int \<Rightarrow> bool" where
  "floorAt g cellX cellZ =
     (case g cellZ of None \<Rightarrow> False | Some r \<Rightarrow> r cellX = Some Floor)"

section \<open>Dungeon generation\<close>

text \<open>
  \<^verbatim>\<open>Math.random()\<close> is the ambient random source of the page. It is modelled as an
  infinite sequence \<open>rnd\<close> of draws together with the number \<open>k\<close> of draws already
  consumed; every function that draws returns the advanced position.
\<close>

text \<open>Lines 127-133: every row \<open>0 \<le> y < height\<close> is created and filled with walls.\<close>

definition initRow :: "int \<Rightarrow> row" where
  "initRow width = fold (\<lambda>x r. r(x \<mapsto> Wall)) [0..width - 1] Map.empty"

definition initGrid :: "int \<Rightarrow> int \<Rightarrow> grid" where
  "initGrid width height = fold (\<lambda>y g. g(y \<mapsto> initRow width)) [0..height - 1] Map.empty"

text \<open>The inner and the outer loop of \<^verbatim>\<open>carveRoom\<close> (lines 137-143), and the
  vertical corridor loop (lines 188-190, 195-197).\<close>

primrec carveRow :: "int \<Rightarrow> int list \<Rightarrow> grid \<Rightarrow> error + grid" where
  "carveRow yy [] g = Inr g"
| "carveRow yy (xx # xs) g =
     (case setCell g yy xx Floor of Inl e \<Rightarrow> Inl e | Inr g' \<Rightarrow> carveRow yy xs g')"

primrec carveRows :: "int list \<Rightarrow> int list \<Rightarrow> grid \<Rightarrow> error + grid" where
  "carveRows [] xs g = Inr g"
| "carveRows (yy # ys) xs g =
     (case carveRow yy xs g of Inl e \<Rightarrow> Inl e | Inr g' \<Rightarrow> carveRows ys xs g')"

primrec carveCol :: "int \<Rightarrow> int list \<Rightarrow> grid \<Rightarrow> error + grid" where
  "carveCol xx [] g = Inr g"
| "carveCol xx (yy # ys) g =
     (case setCell g yy xx Floor of Inl e \<Rightarrow> Inl e | Inr g' \<Rightarrow> carveCol xx ys g')"

definition carveRoom :: "int \<Rightarrow> int \<Rightarrow> int \<Rightarrow> int \<Rightarrow> grid \<Rightarrow> error + grid" where
  "carveRoom x y w h g = carveRows [y..y + h - 1] [x..x + w - 1] g"

text \<open>The overlap test (lines 152-159); both loops stop at the first floor cell.\<close>

primrec overlapRow :: "int \<Rightarrow> int list \<Rightarrow> grid \<Rightarrow> error + bool" where
  "overlapRow yy [] g = Inr False"
| "overlapRow yy (xx # xs) g =
     (case cellIsFloor g yy xx of
        Inl e \<Rightarrow> Inl e
      | Inr b \<Rightarrow> if b then Inr True else overlapRow yy xs g)"

primrec overlapRows :: "int list \<Rightarrow> int list \<Rightarrow> grid \<Rightarrow> error + bool" where
  "overlapRows [] xs g = Inr False"
| "overlapRows (yy # ys) xs g =
     (case overlapRow yy xs g of
        Inl e \<Rightarrow> Inl e
      | Inr b \<Rightarrow> if b then Inr True else overlapRows ys xs g)"

text \<open>The four draws of one placement attempt (lines 147-150): the candidate
  rectangle \<open>(x, y, w, h)\<close>.\<close>

definition candidate ::
  "int \<Rightarrow> int \<Rightarrow> int \<Rightarrow> int \<Rightarrow> (nat \<Rightarrow> real) \<Rightarrow> nat \<Rightarrow> int \<times> int \<times> int \<times> int" where
  "candidate width height roomMin roomMax rnd k =
     (let w = \<lfloor>rnd k * real_of_int (roomMax - roomMin + 1)\<rfloor> + roomMin;
          h = \<lfloor>rnd (k + 1) * real_of_int (roomMax - roomMin + 1)\<rfloor> + roomMin;
          x = \<lfloor>rnd (k + 2) * real_of_int (width - w - 2)\<rfloor> + 1;
          y = \<lfloor>rnd (k + 3) * real_of_int (height - h - 2)\<rfloor> + 1
      in (x, y, w, h))"

text \<open>Lines 165-167: the recorded centre of an accepted room.\<close>

definition center :: "int \<times> int \<times> int \<times> int \<Rightarrow> room" where
  "center c =
     (case c of (x, y, w, h) \<Rightarrow>
        \<lparr>cx = \<lfloor>real_of_int x + real_of_int w / 2\<rfloor>,
         cy = \<lfloor>real_of_int y + real_of_int h / 2\<rfloor>\<rparr>)"

text \<open>The room loop (lines 146-168), \<open>n\<close> iterations left.\<close>

fun placeRooms ::
  "nat \<Rightarrow> int \<Rightarrow> int \<Rightarrow> int \<Rightarrow> int \<Rightarrow> (nat \<Rightarrow> real) \<Rightarrow> nat \<Rightarrow> grid \<Rightarrow> room list
     \<Rightarrow> error + (grid \<times> room list \<times> nat)" where
  "placeRooms 0 width height roomMin roomMax rnd k g rs = Inr (g, rs, k)"
| "placeRooms (Suc n) width height roomMin roomMax rnd k g rs =
     (case candidate width height roomMin roomMax rnd k of (x, y, w, h) \<Rightarrow>
        (case overlapRows [y..y + h - 1] [x..x + w - 1] g of
           Inl e \<Rightarrow> Inl e
         | Inr overlaps \<Rightarrow>
             if overlaps then placeRooms n width height roomMin roomMax rnd (k + 4) g rs
             else (case carveRoom x y w h g of
                     Inl e \<Rightarrow> Inl e
                   | Inr g' \<Rightarrow>
                       placeRooms n width height roomMin roomMax rnd (k + 4) g'
                         (rs @ [center (x, y, w, h)]))))"

text \<open>One L-shaped corridor (lines 176-203); \<open>coin\<close> is \<^verbatim>\<open>Math.random() < 0.5\<close>.\<close>

definition carveCorridor :: "room \<Rightarrow> room \<Rightarrow> bool \<Rightarrow> grid \<Rightarrow> error + grid" where
  "carveCorridor r1 r2 coin g =
     (let x1 = cx r1; y1 = cy r1; x2 = cx r2; y2 = cy r2 in
      if coin then
        (case carveRow y1 [min x1 x2..max x1 x2] g of
           Inl e \<Rightarrow> Inl e
         | Inr g' \<Rightarrow> carveCol x2 [min y1 y2..max y1 y2] g')
      else
        (case carveCol x1 [min y1 y2..max y1 y2] g of
           Inl e \<Rightarrow> Inl e
         | Inr g' \<Rightarrow> carveRow y2 [min x1 x2..max x1 x2] g'))"

text \<open>The corridor loop (lines 171-205) over consecutive rooms.\<close>

fun connectRooms :: "room list \<Rightarrow> (nat \<Rightarrow> real) \<Rightarrow> nat \<Rightarrow> grid \<Rightarrow> error + (grid \<times> nat)" where
  "connectRooms (r1 # r2 # rs) rnd k g =
     (case carveCorridor r1 r2 (rnd k < 1 / 2) g of
        Inl e \<Rightarrow> Inl e
      | Inr g' \<Rightarrow> connectRooms (r2 # rs) rnd (Suc k) g')"
| "connectRooms rs rnd k g = Inr (g, k)"

definition generateDungeon ::
  "int \<Rightarrow> int \<Rightarrow> int \<Rightarrow> int \<Rightarrow> int \<Rightarrow> (nat \<Rightarrow> real) \<Rightarrow> nat \<Rightarrow> error + (dungeon \<times> nat)" where
  "generateDungeon width height maxRooms roomMin roomMax rnd k =
     (case placeRooms (nat maxRooms) width height roomMin roomMax rnd k
             (initGrid width height) [] of
        Inl e \<Rightarrow> Inl e
      | Inr (g, rs, k') \<Rightarrow>
          (case connectRooms rs rnd k' g of
             Inl e \<Rightarrow> Inl e
           | Inr (g', k'') \<Rightarrow> Inr (\<lparr>grid = g', rooms = rs\<rparr>, k'')))"

section \<open>Game state\<close>

definition DUNGEON_WIDTH :: int where "DUNGEON_WIDTH = 30"
definition DUNGEON_HEIGHT :: int where "DUNGEON_HEIGHT = 30"
definition MAX_ROOMS :: int where "MAX_ROOMS = 6"
definition ROOM_MIN_SIZE :: int where "ROOM_MIN_SIZE = 3"
definition ROOM_MAX_SIZE :: int where "ROOM_MAX_SIZE = 6"

definition PLAYER_SPEED :: real where "PLAYER_SPEED = 3"
definition ENEMY_SPEED :: real where "ENEMY_SPEED = 3 / 2"
definition PLAYER_MAX_HEALTH :: int where "PLAYER_MAX_HEALTH = 100"
definition ENEMY_MAX_HEALTH :: int where "ENEMY_MAX_HEALTH = 50"
definition ENEMY_DAMAGE :: int where "ENEMY_DAMAGE = 10"
definition ATTACK_INTERVAL :: real where "ATTACK_INTERVAL = 1000"

text \<open>
  The module-level variables of main.js, as one record. A mesh is kept as its position
  in the plane (\<^verbatim>\<open>position.x\<close>, \<^verbatim>\<open>position.z\<close>); coordinates, the frame time and the
  clock are real numbers. \<^verbatim>\<open>dungeonGrid\<close> is the \<^verbatim>\<open>const\<close> of line 433.
  \<^verbatim>\<open>playerMesh\<close> is assigned while the script is loaded, before any frame or key
  handler runs, and is never unset afterwards, so it is a plain field and the
  \<^verbatim>\<open>if (playerMesh)\<close> tests are taken. \<^verbatim>\<open>enemyMesh\<close> becomes \<^verbatim>\<open>undefined\<close> when the
  enemy is defeated. \<open>gameOverShown\<close> is \<^verbatim>\<open>gameOverText.style.display\<close> being
  \<^verbatim>\<open>'block'\<close>, and \<open>randomPos\<close> the number of draws \<^verbatim>\<open>Math.random()\<close> has served.
\<close>

record mesh =
  posX :: real
  posZ :: real

record keyState =
  up :: bool
  down :: bool
  left :: bool
  right :: bool

record game =
  dungeonGrid :: grid
  playerMesh :: mesh
  enemyMesh :: "mesh option"
  playerHealth :: int
  enemyHealth :: int
  lastEnemyAttackTime :: real
  keys :: keyState
  gameOverShown :: bool
  randomPos :: nat

text \<open>\<^verbatim>\<open>rooms[0]\<close> and \<^verbatim>\<open>rooms[rooms.length - 1]\<close>: \<^verbatim>\<open>undefined\<close> on an empty array.\<close>

definition firstRoom :: "room list \<Rightarrow> room option" where
  "firstRoom rs = (case rs of [] \<Rightarrow> None | r # _ \<Rightarrow> Some r)"

definition lastRoom :: "room list \<Rightarrow> room option" where
  "lastRoom rs = (if rs = [] then None else Some (last rs))"

text \<open>\<^verbatim>\<open>a || b\<close> on values that are an object or \<^verbatim>\<open>undefined\<close>.\<close>

definition orElse :: "'a option \<Rightarrow> 'a option \<Rightarrow> 'a option" where
  "orElse a b = (case a of Some v \<Rightarrow> Some v | None \<Rightarrow> b)"

definition meshAt :: "room \<Rightarrow> mesh" where
  "meshAt r = \<lparr>posX = real_of_int (cx r), posZ = real_of_int (cy r)\<rparr>"

text \<open>Lines 240-261. Reading \<^verbatim>\<open>startRoomCenter.cx\<close> of \<^verbatim>\<open>undefined\<close> raises.\<close>

definition createPlayerAndEnemy :: "room option \<Rightarrow> room option \<Rightarrow> game \<Rightarrow> error + game" where
  "createPlayerAndEnemy startRoomCenter endRoomCenter s =
     (case startRoomCenter of
        None \<Rightarrow> Inl TypeError
      | Some sc \<Rightarrow>
          (case orElse endRoomCenter startRoomCenter of
             None \<Rightarrow> Inl TypeError
           | Some enemyPos \<Rightarrow>
               Inr (s\<lparr>playerMesh := meshAt sc,
                      enemyMesh := Some (meshAt enemyPos),
                      playerHealth := PLAYER_MAX_HEALTH,
                      enemyHealth := ENEMY_MAX_HEALTH\<rparr>)))"

text \<open>Lines 270-287.\<close>

definition playerAttack :: "game \<Rightarrow> game" where
  "playerAttack s =
     (case enemyMesh s of
        None \<Rightarrow> s
      | Some e \<Rightarrow>
          if enemyHealth s \<le> 0 then s
          else
            let dx = posX (playerMesh s) - posX e;
                dz = posZ (playerMesh s) - posZ e;
                distSq = dx * dx + dz * dz;
                attackRange = 3 / 2
            in if distSq \<le> attackRange * attackRange then
                 let s1 = s\<lparr>enemyHealth := enemyHealth s - 50\<rparr>
                 in if enemyHealth s1 \<le> 0
                    then s1\<lparr>enemyHealth := 0, enemyMesh := None\<rparr>
                    else s1
               else s)"

text \<open>Lines 290-311; \<open>now\<close> is the value of \<^verbatim>\<open>performance.now()\<close>.\<close>

definition enemyAttack :: "real \<Rightarrow> game \<Rightarrow> game" where
  "enemyAttack now s =
     (case enemyMesh s of
        None \<Rightarrow> s
      | Some e \<Rightarrow>
          let dx = posX (playerMesh s) - posX e;
              dz = posZ (playerMesh s) - posZ e;
              distSq = dx * dx + dz * dz;
              hitRange = 1
          in if distSq \<le> hitRange * hitRange then
               if now - lastEnemyAttackTime s > ATTACK_INTERVAL then
                 let s1 = s\<lparr>playerHealth := playerHealth s - ENEMY_DAMAGE,
                            lastEnemyAttackTime := now\<rparr>
                 in if playerHealth s1 \<le> 0
                    then s1\<lparr>playerHealth := 0, gameOverShown := True\<rparr>
                    else s1
               else s
             else s)"

text \<open>
  Lines 324-333 after the dungeon has been generated: the actors are placed from the
  new room list. \<^verbatim>\<open>dungeonGrid\<close> is not assigned (it is a \<^verbatim>\<open>const\<close>, and the new
  dungeon lives in the local \<^verbatim>\<open>dungeon\<close> only).
\<close>

definition restartPlace :: "dungeon \<Rightarrow> game \<Rightarrow> error + game" where
  "restartPlace d s =
     (let startCenter = firstRoom (rooms d);
          endCenter = orElse (lastRoom (rooms d)) (firstRoom (rooms d))
      in case createPlayerAndEnemy startCenter endCenter s of
           Inl e \<Rightarrow> Inl e
         | Inr s' \<Rightarrow> Inr (s'\<lparr>gameOverShown := False\<rparr>))"

definition restartGame :: "(nat \<Rightarrow> real) \<Rightarrow> game \<Rightarrow> error + game" where
  "restartGame rnd s =
     (case generateDungeon DUNGEON_WIDTH DUNGEON_HEIGHT MAX_ROOMS ROOM_MIN_SIZE ROOM_MAX_SIZE
             rnd (randomPos s) of
        Inl e \<Rightarrow> Inl e
      | Inr (d, k) \<Rightarrow> restartPlace d (s\<lparr>randomPos := k\<rparr>))"

text \<open>Lines 432-438 after the dungeon has been generated, with the initial values of
  the globals (lines 23-28).\<close>

definition startPlace :: "dungeon \<Rightarrow> nat \<Rightarrow> error + game" where
  "startPlace dungeonData k =
     (let startRoom =
            orElse (firstRoom (rooms dungeonData))
              (Some \<lparr>cx = \<lfloor>real_of_int DUNGEON_WIDTH / 2\<rfloor>,
                     cy = \<lfloor>real_of_int DUNGEON_HEIGHT / 2\<rfloor>\<rparr>);
          endRoom = orElse (lastRoom (rooms dungeonData)) startRoom
      in createPlayerAndEnemy startRoom endRoom
           \<lparr>dungeonGrid = grid dungeonData,
            playerMesh = \<lparr>posX = 0, posZ = 0\<rparr>,
            enemyMesh = None,
            playerHealth = PLAYER_MAX_HEALTH,
            enemyHealth = ENEMY_MAX_HEALTH,
            lastEnemyAttackTime = 0,
            keys = \<lparr>up = False, down = False, left = False, right = False\<rparr>,
            gameOverShown = False,
            randomPos = k\<rparr>)"

definition startGame :: "(nat \<Rightarrow> real) \<Rightarrow> error + game" where
  "startGame rnd =
     (case generateDungeon DUNGEON_WIDTH DUNGEON_HEIGHT MAX_ROOMS ROOM_MIN_SIZE ROOM_MAX_SIZE
             rnd 0 of
        Inl e \<Rightarrow> Inl e
      | Inr (dungeonData, k) \<Rightarrow> startPlace dungeonData k)"

section \<open>The frame loop\<close>

text \<open>The collision test of one axis (lines 359-365 and 369-374 for the player,
  390-395 and 398-403 for the enemy): the candidate coordinate is committed when the
  rounded cell is a floor of \<^verbatim>\<open>dungeonGrid\<close>.\<close>

definition attemptX :: "grid \<Rightarrow> mesh \<Rightarrow> real \<Rightarrow> mesh" where
  "attemptX g m newX =
     (let cellX = \<lfloor>newX + 1 / 2\<rfloor>; cellZ = \<lfloor>posZ m + 1 / 2\<rfloor>
      in if floorAt g cellX cellZ then m\<lparr>posX := newX\<rparr> else m)"

definition attemptZ :: "grid \<Rightarrow> mesh \<Rightarrow> real \<Rightarrow> mesh" where
  "attemptZ g m newZ =
     (let cellX = \<lfloor>posX m + 1 / 2\<rfloor>; cellZ = \<lfloor>newZ + 1 / 2\<rfloor>
      in if floorAt g cellX cellZ then m\<lparr>posZ := newZ\<rparr> else m)"

text \<open>Lines 346-355: the direction of the player from the held keys, normalised.\<close>

definition playerDir :: "keyState \<Rightarrow> real \<times> real" where
  "playerDir ks =
     (let moveZ = (if up ks then - 1 else 0) + (if down ks then 1 else 0);
          moveX = (if left ks then - 1 else 0) + (if right ks then 1 else 0);
          len = sqrt (moveX * moveX + moveZ * moveZ)
      in if (moveX \<noteq> 0 \<or> moveZ \<noteq> 0) \<and> len > 0 then (moveX / len, moveZ / len)
         else (moveX, moveZ))"

text \<open>Lines 356-375.\<close>

definition movePlayer :: "grid \<Rightarrow> keyState \<Rightarrow> real \<Rightarrow> mesh \<Rightarrow> mesh" where
  "movePlayer g ks deltaTime m =
     (case playerDir ks of (moveX, moveZ) \<Rightarrow>
        let moveDistance = PLAYER_SPEED * deltaTime;
            m1 = (if moveX \<noteq> 0 then attemptX g m (posX m + moveX * moveDistance) else m)
        in if moveZ \<noteq> 0 then attemptZ g m1 (posZ m1 + moveZ * moveDistance) else m1)"

text \<open>Lines 380-387: the step of the enemy towards the player; \<open>(0, 0)\<close> stands for
  the skipped block when the distance is zero.\<close>

definition enemyStep :: "real \<Rightarrow> mesh \<Rightarrow> mesh \<Rightarrow> real \<times> real" where
  "enemyStep deltaTime p e =
     (let dx = posX p - posX e;
          dz = posZ p - posZ e;
          dist = sqrt (dx * dx + dz * dz)
      in if dist > 0 then
           let step = ENEMY_SPEED * deltaTime in (dx / dist * step, dz / dist * step)
         else (0, 0))"

text \<open>Lines 388-404.\<close>

definition moveEnemy :: "grid \<Rightarrow> real \<Rightarrow> mesh \<Rightarrow> mesh \<Rightarrow> mesh" where
  "moveEnemy g deltaTime p e =
     (case enemyStep deltaTime p e of (moveX, moveZ) \<Rightarrow>
        let e1 = (if moveX \<noteq> 0 then attemptX g e (posX e + moveX) else e)
        in if moveZ \<noteq> 0 then attemptZ g e1 (posZ e1 + moveZ) else e1)"

text \<open>Lines 337-410, the game logic of one frame; \<open>deltaTime\<close> is
  \<^verbatim>\<open>clock.getDelta()\<close>. The camera and the renderer are left out.\<close>

definition animate :: "real \<Rightarrow> real \<Rightarrow> game \<Rightarrow> game" where
  "animate deltaTime now s =
     (if playerHealth s > 0 then
        let s1 = s\<lparr>playerMesh := movePlayer (dungeonGrid s) (keys s) deltaTime (playerMesh s)\<rparr>;
            s2 = (case enemyMesh s1 of
                    None \<Rightarrow> s1
                  | Some e \<Rightarrow>
                      s1\<lparr>enemyMesh :=
                           Some (moveEnemy (dungeonGrid s1) deltaTime (playerMesh s1) e)\<rparr>)
        in enemyAttack now s2
      else s)"

section \<open>Key handlers and sessions\<close>

text \<open>Lines 65-96 and 97-119; the argument is \<^verbatim>\<open>e.key\<close>.\<close>

definition keydown :: "(nat \<Rightarrow> real) \<Rightarrow> string \<Rightarrow> game \<Rightarrow> error + game" where
  "keydown rnd k s =
     (if k = ''w'' \<or> k = ''W'' \<or> k = ''ArrowUp'' then Inr (s\<lparr>keys := (keys s)\<lparr>up := True\<rparr>\<rparr>)
      else if k = ''s'' \<or> k = ''S'' \<or> k = ''ArrowDown'' then
        Inr (s\<lparr>keys := (keys s)\<lparr>down := True\<rparr>\<rparr>)
      else if k = ''a'' \<or> k = ''A'' \<or> k = ''ArrowLeft'' then
        Inr (s\<lparr>keys := (keys s)\<lparr>left := True\<rparr>\<rparr>)
      else if k = ''d'' \<or> k = ''D'' then Inr (s\<lparr>keys := (keys s)\<lparr>right := True\<rparr>\<rparr>)
      else if k = '' '' then Inr (playerAttack s)
      else if k = ''r'' \<or> k = ''R'' then
        (if playerHealth s \<le> 0 then restartGame rnd s else Inr s)
      else Inr s)"

definition keyup :: "string \<Rightarrow> game \<Rightarrow> game" where
  "keyup k s =
     (if k = ''w'' \<or> k = ''W'' \<or> k = ''ArrowUp'' then s\<lparr>keys := (keys s)\<lparr>up := False\<rparr>\<rparr>
      else if k = ''s'' \<or> k = ''S'' \<or> k = ''ArrowDown'' then
        s\<lparr>keys := (keys s)\<lparr>down := False\<rparr>\<rparr>
      else if k = ''a'' \<or> k = ''A'' \<or> k = ''ArrowLeft'' then
        s\<lparr>keys := (keys s)\<lparr>left := False\<rparr>\<rparr>
      else if k = ''d'' \<or> k = ''D'' then s\<lparr>keys := (keys s)\<lparr>right := False\<rparr>\<rparr>
      else s)"

text \<open>A session is the page load followed by the events the host delivers: key
  presses, key releases and frames (with the frame's \<open>deltaTime\<close> and \<open>now\<close>). An
  exception escaping a handler ends the modelled session.\<close>

datatype event = KeyDown string | KeyUp string | Frame real real

fun step :: "(nat \<Rightarrow> real) \<Rightarrow> event \<Rightarrow> game \<Rightarrow> error + game" where
  "step rnd (KeyDown k) s = keydown rnd k s"
| "step rnd (KeyUp k) s = Inr (keyup k s)"
| "step rnd (Frame deltaTime now) s = Inr (animate deltaTime now s)"

fun run :: "(nat \<Rightarrow> real) \<Rightarrow> event list \<Rightarrow> game \<Rightarrow> error + game" where
  "run rnd [] s = Inr s"
| "run rnd (e # es) s = (case step rnd e s of Inl err \<Rightarrow> Inl err | Inr s' \<Rightarrow> run rnd es s')"

definition session :: "(nat \<Rightarrow> real) \<Rightarrow> event list \<Rightarrow> error + game" where
  "session rnd es = (case startGame rnd of Inl err \<Rightarrow> Inl err | Inr s \<Rightarrow> run rnd es s)"

section \<open>Quantities used in the statements\<close>

text \<open>The squared planar distance both attack functions compute inline.\<close>

definition distSq :: "mesh \<Rightarrow> mesh \<Rightarrow> real" where
  "distSq p e = (posX p - posX e) * (posX p - posX e) + (posZ p - posZ e) * (posZ p - posZ e)"

text \<open>The condition under which a player attack is said to damage the enemy: the
  enemy exists, its health is positive and it lies within the attack radius 1.5.\<close>

definition attackHits :: "game \<Rightarrow> bool" where
  "attackHits s =
     (case enemyMesh s of None \<Rightarrow> False
      | Some e \<Rightarrow> 0 < enemyHealth s \<and> distSq (playerMesh s) e \<le> (3 / 2) * (3 / 2))"

text \<open>The times of the frames of a run in which the enemy's attack landed, that is,
  in which the player's health dropped.\<close>

fun enemyHits :: "(nat \<Rightarrow> real) \<Rightarrow> event list \<Rightarrow> game \<Rightarrow> real list" where
  "enemyHits rnd [] s = []"
| "enemyHits rnd (e # es) s =
     (case step rnd e s of
        Inl err \<Rightarrow> []
      | Inr s' \<Rightarrow>
          (case e of
             Frame deltaTime now \<Rightarrow> if playerHealth s' < playerHealth s then [now] else []
           | _ \<Rightarrow> []) @ enemyHits rnd es s')"

text \<open>A state with the enemy at \<open>(2, 2)\<close> and the player \<open>d\<close> units to its right,
  with the given healths.\<close>

definition duel :: "real \<Rightarrow> int \<Rightarrow> int \<Rightarrow> game" where
  "duel d ph eh =
     \<lparr>dungeonGrid = initGrid DUNGEON_WIDTH DUNGEON_HEIGHT,
      playerMesh = \<lparr>posX = 2 + d, posZ = 2\<rparr>,
      enemyMesh = Some \<lparr>posX = 2, posZ = 2\<rparr>,
      playerHealth = ph,
      enemyHealth = eh,
      lastEnemyAttackTime = 0,
      keys = \<lparr>up = False, down = False, left = False, right = False\<rparr>,
      gameOverShown = (ph \<le> 0),
      randomPos = 24\<rparr>"

text \<open>Two cells are adjacent when they differ by one step along one axis. A floor
  path leads from its first cell to its last through adjacent floor cells only, both
  ends included.\<close>

definition adjacent :: "int \<times> int \<Rightarrow> int \<times> int \<Rightarrow> bool" where
  "adjacent p q = (\<bar>fst p - fst q\<bar> + \<bar>snd p - snd q\<bar> = 1)"

inductive floorPath :: "grid \<Rightarrow> int \<times> int \<Rightarrow> int \<times> int \<Rightarrow> bool" for g where
  start: "floorAt g (fst p) (snd p) \<Longrightarrow> floorPath g p p"
| step: "floorPath g p q \<Longrightarrow> adjacent q r \<Longrightarrow> floorAt g (fst r) (snd r) \<Longrightarrow> floorPath g p r"

code_pred floorPath .

text \<open>The cell \<open>(cx, cy)\<close> of a recorded room centre.\<close>

definition centerCell :: "room \<Rightarrow> int \<times> int" where
  "centerCell r = (cx r, cy r)"

text \<open>The cells \<open>(xx, yy)\<close> that \<^verbatim>\<open>carveRoom(x, y, w, h)\<close> sets.\<close>

definition rectCells :: "int \<times> int \<times> int \<times> int \<Rightarrow> (int \<times> int) set" where
  "rectCells c = (case c of (x, y, w, h) \<Rightarrow> {x..x + w - 1} \<times> {y..y + h - 1})"

text \<open>The rectangles of the rooms the room loop accepts, in placement order. The
  source keeps only their centres; this replays the loop of \<open>placeRooms\<close> and records
  the rectangle where that one records the centre (\<open>placeRooms_accepted\<close> below).\<close>

fun acceptedRooms ::
  "nat \<Rightarrow> int \<Rightarrow> int \<Rightarrow> int \<Rightarrow> int \<Rightarrow> (nat \<Rightarrow> real) \<Rightarrow> nat \<Rightarrow> grid
     \<Rightarrow> (int \<times> int \<times> int \<times> int) list" where
  "acceptedRooms 0 width height roomMin roomMax rnd k g = []"
| "acceptedRooms (Suc n) width height roomMin roomMax rnd k g =
     (case candidate width height roomMin roomMax rnd k of (x, y, w, h) \<Rightarrow>
        (case overlapRows [y..y + h - 1] [x..x + w - 1] g of
           Inl e \<Rightarrow> []
         | Inr overlaps \<Rightarrow>
             if overlaps then acceptedRooms n width height roomMin roomMax rnd (k + 4) g
             else (case carveRoom x y w h g of
                     Inl e \<Rightarrow> []
                   | Inr g' \<Rightarrow>
                       (x, y, w, h) #
                       acceptedRooms n width height roomMin roomMax rnd (k + 4) g')))"

text \<open>A sequence of draws used in the examples: two draws of \<open>0.82\<close> at positions 26
  and 27, every other draw \<open>0\<close>.\<close>

definition demoDraws :: "nat \<Rightarrow> real" where
  "demoDraws n = (if n = 26 \<or> n = 27 then 41 / 50 else 0)"

text \<open>The grid with the single room \<open>(1, 1, 3, 3)\<close>, and a state on it: the player
  near the left wall of the room with the left key held, the enemy further down.\<close>

definition roomGrid :: grid where
  "roomGrid =
     (case carveRoom 1 1 3 3 (initGrid DUNGEON_WIDTH DUNGEON_HEIGHT) of
        Inl e \<Rightarrow> Map.empty
      | Inr g \<Rightarrow> g)"

definition arena :: game where
  "arena =
     \<lparr>dungeonGrid = roomGrid,
      playerMesh = \<lparr>posX = 3 / 5, posZ = 11 / 5\<rparr>,
      enemyMesh = Some \<lparr>posX = 6 / 5, posZ = 3\<rparr>,
      playerHealth = 100,
      enemyHealth = 50,
      lastEnemyAttackTime = 0,
      keys = \<lparr>up = False, down = False, left = True, right = False\<rparr>,
      gameOverShown = False,
      randomPos = 24\<rparr>"

text \<open>The events of a short session: ten frames, 1001 milliseconds apart, and then
  the key \<^verbatim>\<open>r\<close>.\<close>

definition demoEvents :: "event list" where
  "demoEvents =
     [Frame (1 / 60) 1001, Frame (1 / 60) 2002, Frame (1 / 60) 3003, Frame (1 / 60) 4004,
      Frame (1 / 60) 5005, Frame (1 / 60) 6006, Frame (1 / 60) 7007, Frame (1 / 60) 8008,
      Frame (1 / 60) 9009, Frame (1 / 60) 10010, KeyDown ''r'']"

text \<open>The state that session ends in, as a function of the collision grid.\<close>

definition restarted :: "grid \<Rightarrow> game" where
  "restarted g =
     \<lparr>dungeonGrid = g,
      playerMesh = \<lparr>posX = 22, posZ = 22\<rparr>,
      enemyMesh = Some \<lparr>posX = 2, posZ = 2\<rparr>,
      playerHealth = 100,
      enemyHealth = 50,
      lastEnemyAttackTime = 10010,
      keys = \<lparr>up = False, down = False, left = False, right = False\<rparr>,
      gameOverShown = False,
      randomPos = 49\<rparr>"

text \<open>An actor stands on a floor cell: its position, rounded per coordinate with
  \<open>\<lfloor>v + 1/2\<rfloor>\<close>, is a floor of the grid.\<close>

definition onFloor :: "grid \<Rightarrow> mesh \<Rightarrow> bool" where
  "onFloor g m = floorAt g \<lfloor>posX m + 1 / 2\<rfloor> \<lfloor>posZ m + 1 / 2\<rfloor>"

section \<open>Player attack\<close>

lemma playerAttack_cases:
  "playerAttack s =
     (if attackHits s then
        (if enemyHealth s - 50 \<le> 0 then s\<lparr>enemyHealth := 0, enemyMesh := None\<rparr>
         else s\<lparr>enemyHealth := enemyHealth s - 50\<rparr>)
      else s)"
  by (auto simp: playerAttack_def attackHits_def distSq_def Let_def split: option.splits)

text \<open>
  C6. A player attack lowers the enemy's health exactly when the enemy exists, its
  health is positive and the squared distance is at most \<open>1.5\<^sup>2\<close>. On a hit the
  health drops by 50 and is clamped at 0, in which case the enemy is removed; without
  a hit nothing changes; once the enemy is removed every further attack is a no-op.
  The witness hits at distance exactly 1.5 and misses at 1.51.
\<close>

theorem playerAttack_damage:
  "(enemyHealth (playerAttack s) < enemyHealth s \<longleftrightarrow> attackHits s) \<and>
   (attackHits s \<longrightarrow>
      enemyHealth (playerAttack s) = max 0 (enemyHealth s - 50) \<and>
      (enemyHealth s - 50 \<le> 0 \<longrightarrow> enemyMesh (playerAttack s) = None) \<and>
      (0 < enemyHealth s - 50 \<longrightarrow> enemyMesh (playerAttack s) = enemyMesh s)) \<and>
   (\<not> attackHits s \<longrightarrow> playerAttack s = s) \<and>
   (enemyMesh (playerAttack s) = None \<longrightarrow>
      (\<forall>n. (playerAttack ^^ n) (playerAttack s) = playerAttack s))"
proof -
  have noop: "(playerAttack ^^ n) t = t" if "enemyMesh t = None" for n t
    using that by (induction n) (simp_all add: playerAttack_def)
  have a: "enemyHealth (playerAttack s) < enemyHealth s \<longleftrightarrow> attackHits s"
    by (auto simp: playerAttack_cases) (auto simp: attackHits_def split: option.splits)
  show ?thesis
    using a noop by (auto simp: playerAttack_cases)
qed

theorem playerAttack_damage_witness:
  "attackHits (duel (3 / 2) 100 50) \<and>
   enemyHealth (playerAttack (duel (3 / 2) 100 50)) = 0 \<and>
   enemyMesh (playerAttack (duel (3 / 2) 100 50)) = None \<and>
   (playerAttack ^^ 3) (playerAttack (duel (3 / 2) 100 50)) = playerAttack (duel (3 / 2) 100 50) \<and>
   \<not> attackHits (duel (151 / 100) 100 50) \<and>
   playerAttack (duel (151 / 100) 100 50) = duel (151 / 100) 100 50"
proof -
  have h: "attackHits (duel (3 / 2) 100 50)"
    by (simp add: attackHits_def duel_def distSq_def)
  have m: "\<not> attackHits (duel (151 / 100) 100 50)"
    by (simp add: attackHits_def duel_def distSq_def)
  have e: "enemyHealth (duel (3 / 2) 100 50) = 50"
    by (simp add: duel_def)
  show ?thesis
    using playerAttack_damage [of "duel (3 / 2) 100 50"]
      playerAttack_damage [of "duel (151 / 100) 100 50"] h m e
    by simp
qed

section \<open>Enemy attack and its cooldown\<close>

lemma enemyAttack_cases:
  "enemyAttack now s =
     (if (case enemyMesh s of None \<Rightarrow> False | Some e \<Rightarrow> distSq (playerMesh s) e \<le> 1 * 1)
         \<and> now - lastEnemyAttackTime s > ATTACK_INTERVAL
      then s\<lparr>playerHealth := max 0 (playerHealth s - ENEMY_DAMAGE), lastEnemyAttackTime := now,
              gameOverShown := (playerHealth s - ENEMY_DAMAGE \<le> 0 \<or> gameOverShown s)\<rparr>
      else s)"
  by (auto simp: enemyAttack_def distSq_def Let_def max_def split: option.splits)

lemma animate_timestamp:
  "(playerHealth (animate deltaTime now s) < playerHealth s \<longrightarrow>
      lastEnemyAttackTime (animate deltaTime now s) = now \<and>
      now - lastEnemyAttackTime s > ATTACK_INTERVAL) \<and>
   (\<not> playerHealth (animate deltaTime now s) < playerHealth s \<longrightarrow>
      lastEnemyAttackTime (animate deltaTime now s) = lastEnemyAttackTime s)"
  by (auto simp: animate_def enemyAttack_cases Let_def ENEMY_DAMAGE_def split: option.splits)

lemma createPlayerAndEnemy_timestamp:
  "createPlayerAndEnemy a b s = Inr s' \<Longrightarrow> lastEnemyAttackTime s' = lastEnemyAttackTime s"
  by (auto simp: createPlayerAndEnemy_def split: option.splits)

lemma restartPlace_timestamp:
  "restartPlace d s = Inr s' \<Longrightarrow> lastEnemyAttackTime s' = lastEnemyAttackTime s"
  unfolding restartPlace_def Let_def
  by (auto split: sum.splits dest: createPlayerAndEnemy_timestamp)

lemma restartGame_timestamp:
  assumes "restartGame rnd s = Inr s'"
  shows "lastEnemyAttackTime s' = lastEnemyAttackTime s"
proof (cases "generateDungeon DUNGEON_WIDTH DUNGEON_HEIGHT MAX_ROOMS ROOM_MIN_SIZE ROOM_MAX_SIZE
             rnd (randomPos s)")
  case (Inl e)
  with assms show ?thesis by (simp add: restartGame_def)
next
  case (Inr p)
  obtain d k where p: "p = (d, k)" by (cases p)
  from assms Inr p have "restartPlace d (s\<lparr>randomPos := k\<rparr>) = Inr s'"
    by (simp add: restartGame_def)
  from restartPlace_timestamp [OF this] show ?thesis by simp
qed

lemma playerAttack_timestamp: "lastEnemyAttackTime (playerAttack s) = lastEnemyAttackTime s"
  by (simp add: playerAttack_cases)

lemma keydown_cases:
  assumes "keydown rnd k s = Inr s'"
  shows "s' = s\<lparr>keys := keys s'\<rparr> \<or> s' = playerAttack s \<or>
         (playerHealth s \<le> 0 \<and> restartGame rnd s = Inr s') \<or> s' = s"
proof -
  define a where "a = (k = ''w'' \<or> k = ''W'' \<or> k = ''ArrowUp'')"
  define b where "b = (k = ''s'' \<or> k = ''S'' \<or> k = ''ArrowDown'')"
  define c where "c = (k = ''a'' \<or> k = ''A'' \<or> k = ''ArrowLeft'')"
  define d where "d = (k = ''d'' \<or> k = ''D'')"
  define e where "e = (k = '' '')"
  define f where "f = (k = ''r'' \<or> k = ''R'')"
  have "keydown rnd k s =
     (if a then Inr (s\<lparr>keys := (keys s)\<lparr>up := True\<rparr>\<rparr>)
      else if b then Inr (s\<lparr>keys := (keys s)\<lparr>down := True\<rparr>\<rparr>)
      else if c then Inr (s\<lparr>keys := (keys s)\<lparr>left := True\<rparr>\<rparr>)
      else if d then Inr (s\<lparr>keys := (keys s)\<lparr>right := True\<rparr>\<rparr>)
      else if e then Inr (playerAttack s)
      else if f then (if playerHealth s \<le> 0 then restartGame rnd s else Inr s)
      else Inr s)"
    unfolding keydown_def a_def b_def c_def d_def e_def f_def ..
  with assms show ?thesis
    by (auto split: if_splits)
qed

lemma keydown_timestamp:
  assumes "keydown rnd k s = Inr s'"
  shows "lastEnemyAttackTime s' = lastEnemyAttackTime s"
proof -
  from keydown_cases [OF assms]
  consider "s' = s\<lparr>keys := keys s'\<rparr>" | "s' = playerAttack s"
    | "restartGame rnd s = Inr s'" | "s' = s"
    by blast
  then show ?thesis
  proof cases
    case 1 from arg_cong [OF 1, of lastEnemyAttackTime] show ?thesis by simp
  next
    case 2 then show ?thesis by (simp add: playerAttack_timestamp)
  next
    case 3 then show ?thesis by (rule restartGame_timestamp)
  next
    case 4 then show ?thesis by simp
  qed
qed

lemma keyup_timestamp: "lastEnemyAttackTime (keyup k s) = lastEnemyAttackTime s"
  by (simp add: keyup_def)

lemma enemyHits_successively:
  "successively (\<lambda>t1 t2. t2 - t1 > ATTACK_INTERVAL)
     (lastEnemyAttackTime s # enemyHits rnd es s)"
proof (induction es arbitrary: s)
  case Nil
  show ?case by simp
next
  case (Cons e es)
  show ?case
  proof (cases "step rnd e s")
    case (Inl err)
    then show ?thesis by simp
  next
    case (Inr s')
    note ih = Cons.IH [of s']
    show ?thesis
    proof (cases e)
      case (KeyDown k)
      with Inr have "lastEnemyAttackTime s' = lastEnemyAttackTime s"
        by (simp add: keydown_timestamp)
      with ih Inr KeyDown show ?thesis by simp
    next
      case (KeyUp k)
      with Inr have "lastEnemyAttackTime s' = lastEnemyAttackTime s"
        by (auto simp: keyup_timestamp)
      with ih Inr KeyUp show ?thesis by simp
    next
      case (Frame deltaTime now)
      with Inr have s': "s' = animate deltaTime now s" by simp
      show ?thesis
      proof (cases "playerHealth s' < playerHealth s")
        case True
        with animate_timestamp [of deltaTime now s] s'
        have "lastEnemyAttackTime s' = now" "now - lastEnemyAttackTime s > ATTACK_INTERVAL"
          by simp_all
        with ih Inr Frame True show ?thesis by simp
      next
        case False
        with animate_timestamp [of deltaTime now s] s'
        have "lastEnemyAttackTime s' = lastEnemyAttackTime s" by simp
        with ih Inr Frame False show ?thesis by simp
      qed
    qed
  qed
qed

text \<open>
  C7. An enemy attack changes the state only when the enemy exists within squared
  distance \<open>1\<^sup>2\<close> of the player and at least \<open>ATTACK_INTERVAL\<close> milliseconds have
  passed since \<open>lastEnemyAttackTime\<close>; it then subtracts \<open>ENEMY_DAMAGE\<close> (clamped at 0)
  and stores \<open>now\<close> as the new timestamp. Before \<open>ATTACK_INTERVAL\<close> milliseconds have
  passed the call changes nothing. In every run of events, the times of two successive
  landed attacks are at least \<open>ATTACK_INTERVAL\<close> apart.
\<close>

theorem enemyAttack_cooldown:
  "(enemyAttack now s \<noteq> s \<longrightarrow>
      (\<exists>e. enemyMesh s = Some e \<and> distSq (playerMesh s) e \<le> 1 * 1) \<and>
      now - lastEnemyAttackTime s \<ge> ATTACK_INTERVAL \<and>
      playerHealth (enemyAttack now s) = max 0 (playerHealth s - ENEMY_DAMAGE) \<and>
      lastEnemyAttackTime (enemyAttack now s) = now) \<and>
   (now - lastEnemyAttackTime s < ATTACK_INTERVAL \<longrightarrow> enemyAttack now s = s) \<and>
   successively (\<lambda>t1 t2. t2 - t1 \<ge> ATTACK_INTERVAL) (enemyHits rnd es s)"
proof -
  have "successively (\<lambda>t1 t2. t2 - t1 > ATTACK_INTERVAL) (enemyHits rnd es s)"
    using enemyHits_successively [of s rnd es] by (auto simp: successively_Cons)
  then have "successively (\<lambda>t1 t2. t2 - t1 \<ge> ATTACK_INTERVAL) (enemyHits rnd es s)"
    by (rule successively_mono) auto
  then show ?thesis
    by (auto simp: enemyAttack_cases split: option.splits)
qed

theorem enemyAttack_cooldown_witness:
  "enemyAttack 1001 (duel 0 100 50) \<noteq> duel 0 100 50 \<and>
   playerHealth (enemyAttack 1001 (duel 0 100 50)) = 90 \<and>
   lastEnemyAttackTime (enemyAttack 1001 (duel 0 100 50)) = 1001 \<and>
   enemyAttack 999 (duel 0 100 50) = duel 0 100 50 \<and>
   enemyHits (\<lambda>n. 0) [Frame (1 / 60) 1001, Frame (1 / 60) 1500, Frame (1 / 60) 2002]
     (duel 0 100 50) = [1001, 2002]"
proof -
  have a: "enemyAttack 1001 (duel 0 100 50) \<noteq> duel 0 100 50"
  proof
    assume "enemyAttack 1001 (duel 0 100 50) = duel 0 100 50"
    then have "playerHealth (enemyAttack 1001 (duel 0 100 50)) = playerHealth (duel 0 100 50)"
      by simp
    then show False
      by (simp add: enemyAttack_def duel_def ATTACK_INTERVAL_def ENEMY_DAMAGE_def)
  qed
  have b: "999 - lastEnemyAttackTime (duel 0 100 50) < ATTACK_INTERVAL"
    by (simp add: duel_def ATTACK_INTERVAL_def)
  have c: "playerHealth (duel 0 100 50) = 100"
    by (simp add: duel_def)
  have d: "enemyHits (\<lambda>n. 0) [Frame (1 / 60) 1001, Frame (1 / 60) 1500, Frame (1 / 60) 2002]
     (duel 0 100 50) = [1001, 2002]"
    by (simp add: duel_def animate_def movePlayer_def playerDir_def moveEnemy_def
        enemyStep_def enemyAttack_def ATTACK_INTERVAL_def ENEMY_DAMAGE_def Let_def)
  show ?thesis
    using enemyAttack_cooldown [of 1001 "duel 0 100 50" "\<lambda>n. 0"
        "[Frame (1 / 60) 1001, Frame (1 / 60) 1500, Frame (1 / 60) 2002]"]
      enemyAttack_cooldown [of 999 "duel 0 100 50" "\<lambda>n. 0" "[]"] a b c d
    by (simp add: ENEMY_DAMAGE_def)
qed

section \<open>Attacking while the game is over\<close>

text \<open>
  C10. With the player's health at 0 the space key still runs the player attack: an
  enemy that is alive and within the attack radius loses 50 health and is removed when
  its health reaches 0, while a frame leaves the state untouched.
\<close>

theorem attack_during_game_over:
  assumes "playerHealth s \<le> 0" and "attackHits s"
  shows "keydown rnd '' '' s = Inr (playerAttack s) \<and>
         enemyHealth (playerAttack s) = max 0 (enemyHealth s - 50) \<and>
         (enemyHealth s \<le> 50 \<longrightarrow> enemyMesh (playerAttack s) = None) \<and>
         animate deltaTime now s = s"
  using assms by (simp add: keydown_def playerAttack_cases animate_def)

theorem attack_during_game_over_witness:
  "playerHealth (duel (1 / 2) 0 50) \<le> 0 \<and> attackHits (duel (1 / 2) 0 50) \<and>
   keydown (\<lambda>n. 0) '' '' (duel (1 / 2) 0 50) = Inr (playerAttack (duel (1 / 2) 0 50)) \<and>
   enemyHealth (playerAttack (duel (1 / 2) 0 50)) = 0 \<and>
   enemyMesh (playerAttack (duel (1 / 2) 0 50)) = None \<and>
   animate (1 / 60) 5000 (duel (1 / 2) 0 50) = duel (1 / 2) 0 50"
proof -
  have h: "playerHealth (duel (1 / 2) 0 50) \<le> 0"
    by (simp add: duel_def)
  have a: "attackHits (duel (1 / 2) 0 50)"
    by (simp add: attackHits_def duel_def distSq_def)
  have e: "enemyHealth (duel (1 / 2) 0 50) = 50"
    by (simp add: duel_def)
  show ?thesis
    using attack_during_game_over [OF h a, of "\<lambda>n. 0" "1 / 60" 5000] h a e by simp
qed

section \<open>Floor cells set by the generator\<close>

lemma setCell_floorAt:
  "setCell g yy xx Floor = Inr g' \<Longrightarrow> floorAt g' x y \<longleftrightarrow> floorAt g x y \<or> (x = xx \<and> y = yy)"
  by (auto simp: setCell_def floorAt_def split: option.splits if_splits)

lemma carveRow_floorAt:
  "carveRow yy xs g = Inr g' \<Longrightarrow> floorAt g' x y \<longleftrightarrow> floorAt g x y \<or> (y = yy \<and> x \<in> set xs)"
proof (induction xs arbitrary: g)
  case Nil
  then show ?case by simp
next
  case (Cons xx xs)
  then obtain g1 where g1: "setCell g yy xx Floor = Inr g1" and r: "carveRow yy xs g1 = Inr g'"
    by (auto split: sum.splits)
  from Cons.IH [OF r] setCell_floorAt [OF g1] show ?case by auto
qed

lemma carveCol_floorAt:
  "carveCol xx ys g = Inr g' \<Longrightarrow> floorAt g' x y \<longleftrightarrow> floorAt g x y \<or> (x = xx \<and> y \<in> set ys)"
proof (induction ys arbitrary: g)
  case Nil
  then show ?case by simp
next
  case (Cons yy ys)
  then obtain g1 where g1: "setCell g yy xx Floor = Inr g1" and r: "carveCol xx ys g1 = Inr g'"
    by (auto split: sum.splits)
  from Cons.IH [OF r] setCell_floorAt [OF g1] show ?case by auto
qed

lemma carveRows_floorAt:
  "carveRows ys xs g = Inr g' \<Longrightarrow>
     floorAt g' x y \<longleftrightarrow> floorAt g x y \<or> (y \<in> set ys \<and> x \<in> set xs)"
proof (induction ys arbitrary: g)
  case Nil
  then show ?case by simp
next
  case (Cons yy ys)
  then obtain g1 where g1: "carveRow yy xs g = Inr g1" and r: "carveRows ys xs g1 = Inr g'"
    by (auto split: sum.splits)
  from Cons.IH [OF r] carveRow_floorAt [OF g1] show ?case by auto
qed

lemma carveCorridor_floorAt:
  assumes "carveCorridor r1 r2 coin g = Inr g'"
  shows "floorAt g' x y \<longleftrightarrow>
           floorAt g x y \<or>
           (if coin
            then (y = cy r1 \<and> min (cx r1) (cx r2) \<le> x \<and> x \<le> max (cx r1) (cx r2)) \<or>
                 (x = cx r2 \<and> min (cy r1) (cy r2) \<le> y \<and> y \<le> max (cy r1) (cy r2))
            else (x = cx r1 \<and> min (cy r1) (cy r2) \<le> y \<and> y \<le> max (cy r1) (cy r2)) \<or>
                 (y = cy r2 \<and> min (cx r1) (cx r2) \<le> x \<and> x \<le> max (cx r1) (cx r2)))"
proof (cases coin)
  case True
  with assms obtain g1 where
    a: "carveRow (cy r1) [min (cx r1) (cx r2)..max (cx r1) (cx r2)] g = Inr g1" and
    b: "carveCol (cx r2) [min (cy r1) (cy r2)..max (cy r1) (cy r2)] g1 = Inr g'"
    by (auto simp: carveCorridor_def Let_def split: sum.splits)
  from carveRow_floorAt [OF a] carveCol_floorAt [OF b] True show ?thesis by auto
next
  case False
  with assms obtain g1 where
    a: "carveCol (cx r1) [min (cy r1) (cy r2)..max (cy r1) (cy r2)] g = Inr g1" and
    b: "carveRow (cy r2) [min (cx r1) (cx r2)..max (cx r1) (cx r2)] g1 = Inr g'"
    by (auto simp: carveCorridor_def Let_def split: sum.splits)
  from carveCol_floorAt [OF a] carveRow_floorAt [OF b] False show ?thesis by auto
qed

lemma cellIsFloor_floorAt: "cellIsFloor g yy xx = Inr b \<Longrightarrow> b = floorAt g xx yy"
  by (auto simp: cellIsFloor_def floorAt_def split: option.splits)

lemma overlapRow_iff:
  "overlapRow yy xs g = Inr b \<Longrightarrow> b \<longleftrightarrow> (\<exists>xx\<in>set xs. floorAt g xx yy)"
proof (induction xs)
  case Nil
  then show ?case by auto
next
  case (Cons xx xs)
  then obtain c where c: "cellIsFloor g yy xx = Inr c"
    by (auto split: sum.splits)
  note f = cellIsFloor_floorAt [OF c]
  show ?case
  proof (cases c)
    case True
    with Cons.prems c f show ?thesis by auto
  next
    case False
    with Cons.prems c have "overlapRow yy xs g = Inr b" by simp
    from Cons.IH [OF this] False f show ?thesis by auto
  qed
qed

lemma overlapRows_iff:
  "overlapRows ys xs g = Inr b \<Longrightarrow> b \<longleftrightarrow> (\<exists>yy\<in>set ys. \<exists>xx\<in>set xs. floorAt g xx yy)"
proof (induction ys)
  case Nil
  then show ?case by auto
next
  case (Cons yy ys)
  then obtain c where c: "overlapRow yy xs g = Inr c"
    by (auto split: sum.splits)
  note f = overlapRow_iff [OF c]
  show ?case
  proof (cases c)
    case True
    with Cons.prems c f show ?thesis by auto
  next
    case False
    with Cons.prems c have "overlapRows ys xs g = Inr b" by simp
    from Cons.IH [OF this] False f show ?thesis by auto
  qed
qed

lemma carveRoom_floorAt:
  "carveRoom x y w h g = Inr g' \<Longrightarrow>
     floorAt g' xx yy \<longleftrightarrow> floorAt g xx yy \<or> (xx, yy) \<in> rectCells (x, y, w, h)"
  using carveRows_floorAt [of "[y..y + h - 1]" "[x..x + w - 1]" g g' xx yy]
  by (auto simp: carveRoom_def rectCells_def)

lemma overlap_free_rect:
  "overlapRows [y..y + h - 1] [x..x + w - 1] g = Inr False \<Longrightarrow>
     (xx, yy) \<in> rectCells (x, y, w, h) \<Longrightarrow> \<not> floorAt g xx yy"
  using overlapRows_iff [of "[y..y + h - 1]" "[x..x + w - 1]" g False]
  by (auto simp: rectCells_def)

lemma placeRooms_accepted:
  "placeRooms n width height roomMin roomMax rnd k g rs = Inr (g', rs', k') \<Longrightarrow>
     rs' = rs @ map center (acceptedRooms n width height roomMin roomMax rnd k g) \<and>
     k' = k + 4 * n \<and>
     (\<forall>xx yy. floorAt g' xx yy \<longleftrightarrow>
        floorAt g xx yy \<or>
        (\<exists>c\<in>set (acceptedRooms n width height roomMin roomMax rnd k g). (xx, yy) \<in> rectCells c))"
proof (induction n arbitrary: k g rs)
  case 0
  then show ?case by simp
next
  case (Suc n)
  obtain x y w h where c: "candidate width height roomMin roomMax rnd k = (x, y, w, h)"
    by (cases "candidate width height roomMin roomMax rnd k") auto
  from Suc.prems c obtain b where b: "overlapRows [y..y + h - 1] [x..x + w - 1] g = Inr b"
    by (auto split: sum.splits)
  show ?case
  proof (cases b)
    case True
    with Suc.prems c b have
      "placeRooms n width height roomMin roomMax rnd (k + 4) g rs = Inr (g', rs', k')"
      by simp
    from Suc.IH [OF this] c b True show ?thesis by simp
  next
    case False
    with Suc.prems c b obtain g1 where g1: "carveRoom x y w h g = Inr g1" and
      r: "placeRooms n width height roomMin roomMax rnd (k + 4) g1 (rs @ [center (x, y, w, h)])
            = Inr (g', rs', k')"
      by (auto split: sum.splits)
    from Suc.IH [OF r] have
      "rs' = (rs @ [center (x, y, w, h)]) @
               map center (acceptedRooms n width height roomMin roomMax rnd (k + 4) g1)"
      "k' = k + 4 + 4 * n"
      "\<And>xx yy. floorAt g' xx yy \<longleftrightarrow>
        floorAt g1 xx yy \<or>
        (\<exists>c\<in>set (acceptedRooms n width height roomMin roomMax rnd (k + 4) g1).
           (xx, yy) \<in> rectCells c)"
      by blast+
    moreover have "acceptedRooms (Suc n) width height roomMin roomMax rnd k g =
        (x, y, w, h) # acceptedRooms n width height roomMin roomMax rnd (k + 4) g1"
      using c b False g1 by simp
    ultimately show ?thesis
      using carveRoom_floorAt [OF g1] by (simp del: acceptedRooms.simps)
  qed
qed

lemma acceptedRooms_disjoint:
  "placeRooms n width height roomMin roomMax rnd k g rs = Inr res \<Longrightarrow>
     acc = acceptedRooms n width height roomMin roomMax rnd k g \<Longrightarrow>
     (\<forall>c\<in>set acc. \<forall>p\<in>rectCells c. \<not> floorAt g (fst p) (snd p)) \<and>
     (\<forall>i j. i < j \<and> j < length acc \<longrightarrow> rectCells (acc ! i) \<inter> rectCells (acc ! j) = {})"
proof (induction n arbitrary: k g rs acc)
  case 0
  then show ?case by simp
next
  case (Suc n)
  obtain x y w h where c: "candidate width height roomMin roomMax rnd k = (x, y, w, h)"
    by (cases "candidate width height roomMin roomMax rnd k") auto
  from Suc.prems c obtain b where b: "overlapRows [y..y + h - 1] [x..x + w - 1] g = Inr b"
    by (auto split: sum.splits)
  show ?case
  proof (cases b)
    case True
    with Suc.prems c b have
      "placeRooms n width height roomMin roomMax rnd (k + 4) g rs = Inr res"
      "acc = acceptedRooms n width height roomMin roomMax rnd (k + 4) g"
      by simp_all
    from Suc.IH [OF this] show ?thesis .
  next
    case False
    with Suc.prems c b obtain g1 where g1: "carveRoom x y w h g = Inr g1" and
      r: "placeRooms n width height roomMin roomMax rnd (k + 4) g1 (rs @ [center (x, y, w, h)])
            = Inr res"
      by (auto split: sum.splits)
    define rest where "rest = acceptedRooms n width height roomMin roomMax rnd (k + 4) g1"
    from Suc.prems c b False g1 have acc: "acc = (x, y, w, h) # rest"
      by (simp add: rest_def)
    from Suc.IH [OF r rest_def] have
      ih1: "\<And>c p. c \<in> set rest \<Longrightarrow> p \<in> rectCells c \<Longrightarrow> \<not> floorAt g1 (fst p) (snd p)" and
      ih2: "\<And>i j. i < j \<Longrightarrow> j < length rest \<Longrightarrow> rectCells (rest ! i) \<inter> rectCells (rest ! j) = {}"
      by blast+
    have new: "\<not> floorAt g (fst p) (snd p)" if "p \<in> rectCells (x, y, w, h)" for p
      using overlap_free_rect [of y h x w g "fst p" "snd p"] b False that by simp
    have old: "\<not> floorAt g (fst p) (snd p)" if "c \<in> set rest" "p \<in> rectCells c" for c p
      using ih1 [OF that] carveRoom_floorAt [OF g1] by simp
    have sep: "rectCells (x, y, w, h) \<inter> rectCells c = {}" if "c \<in> set rest" for c
    proof -
      have "p \<notin> rectCells c" if p: "p \<in> rectCells (x, y, w, h)" for p
      proof
        assume "p \<in> rectCells c"
        from ih1 [OF \<open>c \<in> set rest\<close> this] carveRoom_floorAt [OF g1, of "fst p" "snd p"] p
        show False by simp
      qed
      then show ?thesis by blast
    qed
    have "rectCells (acc ! i) \<inter> rectCells (acc ! j) = {}" if "i < j \<and> j < length acc" for i j
    proof (cases i)
      case 0
      with that acc obtain j' where "j = Suc j'" "j' < length rest"
        by (cases j) auto
      with 0 acc sep [of "rest ! j'"] show ?thesis by simp
    next
      case (Suc i')
      with that acc obtain j' where "j = Suc j'" "j' < length rest" "i' < j'"
        by (cases j) auto
      with Suc acc ih2 [of i' j'] show ?thesis by simp
    qed
    moreover have "\<forall>c\<in>set acc. \<forall>p\<in>rectCells c. \<not> floorAt g (fst p) (snd p)"
      using new old acc by (simp del: acceptedRooms.simps)
    ultimately show ?thesis by blast
  qed
qed

section \<open>Corridors\<close>

lemma floorPath_mono:
  assumes "floorPath g p q" and "\<And>x y. floorAt g x y \<Longrightarrow> floorAt g' x y"
  shows "floorPath g' p q"
  using assms by (induction rule: floorPath.induct) (auto intro: floorPath.intros)

lemma floorPath_trans:
  assumes "floorPath g q r" and "floorPath g p q"
  shows "floorPath g p r"
  using assms by (induction rule: floorPath.induct) (auto intro: floorPath.step)

lemma floorPath_right:
  "(\<And>x. x1 \<le> x \<Longrightarrow> x \<le> x1 + int n \<Longrightarrow> floorAt g x y) \<Longrightarrow>
     floorPath g (x1, y) (x1 + int n, y)"
proof (induction n)
  case 0
  then show ?case by (simp add: floorPath.start)
next
  case (Suc n)
  have "floorPath g (x1, y) (x1 + int n, y)"
    by (rule Suc.IH) (simp add: Suc.prems)
  moreover have "adjacent (x1 + int n, y) (x1 + int (Suc n), y)"
    by (simp add: adjacent_def)
  moreover have "floorAt g (x1 + int (Suc n)) y"
    by (rule Suc.prems) simp_all
  ultimately show ?case
    by (auto intro: floorPath.step)
qed

lemma floorPath_left:
  "(\<And>x. x1 - int n \<le> x \<Longrightarrow> x \<le> x1 \<Longrightarrow> floorAt g x y) \<Longrightarrow>
     floorPath g (x1, y) (x1 - int n, y)"
proof (induction n)
  case 0
  then show ?case by (simp add: floorPath.start)
next
  case (Suc n)
  have "floorPath g (x1, y) (x1 - int n, y)"
    by (rule Suc.IH) (simp add: Suc.prems)
  moreover have "adjacent (x1 - int n, y) (x1 - int (Suc n), y)"
    by (simp add: adjacent_def)
  moreover have "floorAt g (x1 - int (Suc n)) y"
    by (rule Suc.prems) simp_all
  ultimately show ?case
    by (auto intro: floorPath.step)
qed

lemma floorPath_horizontal:
  assumes "\<And>x. min x1 x2 \<le> x \<Longrightarrow> x \<le> max x1 x2 \<Longrightarrow> floorAt g x y"
  shows "floorPath g (x1, y) (x2, y)"
proof (cases "x1 \<le> x2")
  case True
  then have "floorPath g (x1, y) (x1 + int (nat (x2 - x1)), y)"
    by (intro floorPath_right assms) auto
  with True show ?thesis by simp
next
  case False
  then have "floorPath g (x1, y) (x1 - int (nat (x1 - x2)), y)"
    by (intro floorPath_left assms) auto
  with False show ?thesis by simp
qed

lemma floorPath_down:
  "(\<And>y. y1 \<le> y \<Longrightarrow> y \<le> y1 + int n \<Longrightarrow> floorAt g x y) \<Longrightarrow>
     floorPath g (x, y1) (x, y1 + int n)"
proof (induction n)
  case 0
  then show ?case by (simp add: floorPath.start)
next
  case (Suc n)
  have "floorPath g (x, y1) (x, y1 + int n)"
    by (rule Suc.IH) (simp add: Suc.prems)
  moreover have "adjacent (x, y1 + int n) (x, y1 + int (Suc n))"
    by (simp add: adjacent_def)
  moreover have "floorAt g x (y1 + int (Suc n))"
    by (rule Suc.prems) simp_all
  ultimately show ?case
    by (auto intro: floorPath.step)
qed

lemma floorPath_up:
  "(\<And>y. y1 - int n \<le> y \<Longrightarrow> y \<le> y1 \<Longrightarrow> floorAt g x y) \<Longrightarrow>
     floorPath g (x, y1) (x, y1 - int n)"
proof (induction n)
  case 0
  then show ?case by (simp add: floorPath.start)
next
  case (Suc n)
  have "floorPath g (x, y1) (x, y1 - int n)"
    by (rule Suc.IH) (simp add: Suc.prems)
  moreover have "adjacent (x, y1 - int n) (x, y1 - int (Suc n))"
    by (simp add: adjacent_def)
  moreover have "floorAt g x (y1 - int (Suc n))"
    by (rule Suc.prems) simp_all
  ultimately show ?case
    by (auto intro: floorPath.step)
qed

lemma floorPath_vertical:
  assumes "\<And>y. min y1 y2 \<le> y \<Longrightarrow> y \<le> max y1 y2 \<Longrightarrow> floorAt g x y"
  shows "floorPath g (x, y1) (x, y2)"
proof (cases "y1 \<le> y2")
  case True
  then have "floorPath g (x, y1) (x, y1 + int (nat (y2 - y1)))"
    by (intro floorPath_down assms) auto
  with True show ?thesis by simp
next
  case False
  then have "floorPath g (x, y1) (x, y1 - int (nat (y1 - y2)))"
    by (intro floorPath_up assms) auto
  with False show ?thesis by simp
qed

lemma carveCorridor_path:
  assumes "carveCorridor r1 r2 coin g = Inr g'"
  shows "floorPath g' (centerCell r1) (centerCell r2)"
proof (cases coin)
  case True
  have "floorPath g' (cx r1, cy r1) (cx r2, cy r1)"
    by (rule floorPath_horizontal) (simp add: carveCorridor_floorAt [OF assms] True)
  moreover have "floorPath g' (cx r2, cy r1) (cx r2, cy r2)"
    by (rule floorPath_vertical) (simp add: carveCorridor_floorAt [OF assms] True)
  ultimately show ?thesis
    unfolding centerCell_def by (rule floorPath_trans [rotated])
next
  case False
  have "floorPath g' (cx r1, cy r1) (cx r1, cy r2)"
    by (rule floorPath_vertical) (simp add: carveCorridor_floorAt [OF assms] False)
  moreover have "floorPath g' (cx r1, cy r2) (cx r2, cy r2)"
    by (rule floorPath_horizontal) (simp add: carveCorridor_floorAt [OF assms] False)
  ultimately show ?thesis
    unfolding centerCell_def by (rule floorPath_trans [rotated])
qed

lemma connectRooms_paths:
  "connectRooms rs rnd k g = Inr (g', k') \<Longrightarrow>
     (\<forall>x y. floorAt g x y \<longrightarrow> floorAt g' x y) \<and>
     (\<forall>i. Suc i < length rs \<longrightarrow> floorPath g' (centerCell (rs ! i)) (centerCell (rs ! Suc i)))"
proof (induction rs rnd k g rule: connectRooms.induct)
  case (1 r1 r2 rs rnd k g)
  from "1.prems" obtain g1 where
    c: "carveCorridor r1 r2 (rnd k < 1 / 2) g = Inr g1" and
    r: "connectRooms (r2 # rs) rnd (Suc k) g1 = Inr (g', k')"
    by (auto split: sum.splits)
  from "1.IH" [OF c r] have
    mono: "\<And>x y. floorAt g1 x y \<Longrightarrow> floorAt g' x y" and
    rest: "\<And>i. Suc i < length (r2 # rs) \<Longrightarrow>
             floorPath g' (centerCell ((r2 # rs) ! i)) (centerCell ((r2 # rs) ! Suc i))"
    by blast+
  have first: "floorPath g' (centerCell r1) (centerCell r2)"
    using carveCorridor_path [OF c] mono by (rule floorPath_mono)
  have "floorAt g' x y" if "floorAt g x y" for x y
    using that carveCorridor_floorAt [OF c] mono by blast
  moreover have "floorPath g' (centerCell ((r1 # r2 # rs) ! i))
      (centerCell ((r1 # r2 # rs) ! Suc i))" if "Suc i < length (r1 # r2 # rs)" for i
  proof (cases i)
    case 0
    with first show ?thesis by simp
  next
    case (Suc j)
    with that rest [of j] show ?thesis by simp
  qed
  ultimately show ?case by blast
qed simp_all

lemma connectRooms_keeps_floor:
  "connectRooms rs rnd k g = Inr (g', k') \<Longrightarrow> floorAt g x y \<Longrightarrow> floorAt g' x y"
  using connectRooms_paths by blast

lemma demo_first: 
  "case generateDungeon 30 30 6 3 6 demoDraws 0 of
     Inl e \<Rightarrow> False
   | Inr (d, k) \<Rightarrow> k = 24 \<and> rooms d = [\<lparr>cx = 2, cy = 2\<rparr>] \<and> \<not> floorAt (grid d) 22 22
       \<and> \<not> floorAt (grid d) 21 22 "
  by code_simp

lemma demo_second: 
  "case generateDungeon 30 30 6 3 6 demoDraws 24 of
     Inl e \<Rightarrow> False
   | Inr (d, k) \<Rightarrow> k = 49 \<and> rooms d = [\<lparr>cx = 22, cy = 22\<rparr>, \<lparr>cx = 2, cy = 2\<rparr>]
       \<and> floorAt (grid d) 22 22 \<and> floorAt (grid d) 21 22"
  by code_simp

text \<open>
  C2. In every dungeon that \<open>generateDungeon\<close> returns, for every \<open>i\<close> with
  \<open>0 < i < length rooms\<close> there is a path of adjacent floor cells of the returned grid
  from the centre of room \<open>i - 1\<close> to the centre of room \<open>i\<close>.
\<close>

theorem corridors_connect_consecutive_rooms:
  assumes "generateDungeon width height maxRooms roomMin roomMax rnd k = Inr (d, k')"
  shows "\<forall>i. 0 < i \<and> i < length (rooms d) \<longrightarrow>
           floorPath (grid d) (centerCell (rooms d ! (i - 1))) (centerCell (rooms d ! i))"
proof -
  from assms obtain g rs k1 where
    c: "connectRooms rs rnd k1 g = Inr (grid d, k')" and rs: "rooms d = rs"
    by (auto simp: generateDungeon_def split: sum.splits prod.splits)
  show ?thesis
  proof (intro allI impI)
    fix i assume i: "0 < i \<and> i < length (rooms d)"
    then obtain j where j: "i = Suc j" by (cases i) auto
    with i rs connectRooms_paths [OF c] show
      "floorPath (grid d) (centerCell (rooms d ! (i - 1))) (centerCell (rooms d ! i))"
      by simp
  qed
qed

theorem corridors_connect_consecutive_rooms_witness:
  "\<exists>d k'. generateDungeon 30 30 6 3 6 demoDraws 24 = Inr (d, k') \<and>
          length (rooms d) = 2 \<and> floorPath (grid d) (22, 22) (2, 2)"
proof -
  from demo_second obtain d where
    g: "generateDungeon 30 30 6 3 6 demoDraws 24 = Inr (d, 49)" and
    r: "rooms d = [\<lparr>cx = 22, cy = 22\<rparr>, \<lparr>cx = 2, cy = 2\<rparr>]"
    by (auto split: sum.splits)
  from corridors_connect_consecutive_rooms [OF g, rule_format, of 1] r
  have "floorPath (grid d) (centerCell (rooms d ! (1 - 1))) (centerCell (rooms d ! 1))"
    by simp
  with r have "floorPath (grid d) (22, 22) (2, 2)"
    by (simp add: centerCell_def)
  with g r show ?thesis by simp
qed

section \<open>Accepted rooms do not overlap\<close>

lemma overlapping_candidate_rejected:
  assumes c: "candidate width height roomMin roomMax rnd j = (x, y, w, h)"
    and f: "\<exists>p\<in>rectCells (x, y, w, h). floorAt g (fst p) (snd p)"
    and r: "placeRooms (Suc n) width height roomMin roomMax rnd j g rs = Inr res"
  shows "placeRooms n width height roomMin roomMax rnd (j + 4) g rs = Inr res"
proof -
  from r c obtain b where b: "overlapRows [y..y + h - 1] [x..x + w - 1] g = Inr b"
    by (auto split: sum.splits)
  from f overlapRows_iff [OF b] have "b" by (auto simp: rectCells_def)
  with r c b show ?thesis by simp
qed

text \<open>
  C9. In every dungeon that \<open>generateDungeon\<close> returns, the recorded centres are those
  of the accepted rectangles, every cell of an accepted rectangle is a floor of the
  returned grid, and the rectangles of two different accepted rooms share no cell. A
  candidate whose rectangle contains a floor cell is skipped: the loop continues with
  the grid and the room list unchanged.
\<close>

theorem accepted_rooms_disjoint:
  "(generateDungeon width height maxRooms roomMin roomMax rnd k = Inr (d, k') \<and>
    acc = acceptedRooms (nat maxRooms) width height roomMin roomMax rnd k
            (initGrid width height) \<longrightarrow>
      rooms d = map center acc \<and>
      (\<forall>c\<in>set acc. \<forall>p\<in>rectCells c. floorAt (grid d) (fst p) (snd p)) \<and>
      (\<forall>i j. i < j \<and> j < length acc \<longrightarrow> rectCells (acc ! i) \<inter> rectCells (acc ! j) = {})) \<and>
   (candidate width height roomMin roomMax rnd j = (x, y, w, h) \<and>
    (\<exists>p\<in>rectCells (x, y, w, h). floorAt g (fst p) (snd p)) \<and>
    placeRooms (Suc n) width height roomMin roomMax rnd j g rs = Inr res \<longrightarrow>
      placeRooms n width height roomMin roomMax rnd (j + 4) g rs = Inr res)"
proof (intro conjI impI)
  assume a: "generateDungeon width height maxRooms roomMin roomMax rnd k = Inr (d, k') \<and>
    acc = acceptedRooms (nat maxRooms) width height roomMin roomMax rnd k
            (initGrid width height)"
  then obtain g1 rs1 k1 where
    p: "placeRooms (nat maxRooms) width height roomMin roomMax rnd k (initGrid width height) []
          = Inr (g1, rs1, k1)" and
    c: "connectRooms rs1 rnd k1 g1 = Inr (grid d, k')" and rs: "rooms d = rs1"
    by (auto simp: generateDungeon_def split: sum.splits prod.splits)
  from a have acc: "acc = acceptedRooms (nat maxRooms) width height roomMin roomMax rnd k
            (initGrid width height)" by simp
  from placeRooms_accepted [OF p] acc rs have
    m: "rooms d = map center acc" and
    f: "\<And>c p. c \<in> set acc \<Longrightarrow> p \<in> rectCells c \<Longrightarrow> floorAt g1 (fst p) (snd p)"
    by auto
  show "rooms d = map center acc" by (rule m)
  show "\<forall>c\<in>set acc. \<forall>p\<in>rectCells c. floorAt (grid d) (fst p) (snd p)"
    using connectRooms_keeps_floor [OF c f] by blast
  show "\<forall>i j. i < j \<and> j < length acc \<longrightarrow> rectCells (acc ! i) \<inter> rectCells (acc ! j) = {}"
    using acceptedRooms_disjoint [OF p acc] by blast
next
  assume "candidate width height roomMin roomMax rnd j = (x, y, w, h) \<and>
    (\<exists>p\<in>rectCells (x, y, w, h). floorAt g (fst p) (snd p)) \<and>
    placeRooms (Suc n) width height roomMin roomMax rnd j g rs = Inr res"
  then show "placeRooms n width height roomMin roomMax rnd (j + 4) g rs = Inr res"
    using overlapping_candidate_rejected by blast
qed

lemma demo_accepted:
  "acceptedRooms (nat 6) 30 30 3 6 demoDraws 24 (initGrid 30 30) = [(21, 21, 3, 3), (1, 1, 3, 3)]"
  by code_simp

lemma demo_candidate: "candidate 30 30 3 6 demoDraws 0 = (1, 1, 3, 3)"
  by (simp add: candidate_def demoDraws_def)

theorem accepted_rooms_disjoint_witness:
  "(\<exists>d k'. generateDungeon 30 30 6 3 6 demoDraws 24 = Inr (d, k') \<and>
      rooms d = [\<lparr>cx = 22, cy = 22\<rparr>, \<lparr>cx = 2, cy = 2\<rparr>] \<and>
      floorAt (grid d) 23 23 \<and> floorAt (grid d) 1 3 \<and>
      rectCells (21, 21, 3, 3) \<inter> rectCells (1, 1, 3, 3) = {}) \<and>
   candidate 30 30 3 6 demoDraws 0 = (1, 1, 3, 3) \<and>
   (1, 1) \<in> rectCells (1, 1, 3, 3) \<and> floorAt (\<lambda>y. Some (\<lambda>x. Some Floor)) 1 1 \<and>
   placeRooms (Suc 0) 30 30 3 6 demoDraws 0 (\<lambda>y. Some (\<lambda>x. Some Floor)) [] =
     Inr (\<lambda>y. Some (\<lambda>x. Some Floor), [], 4) \<and>
   placeRooms 0 30 30 3 6 demoDraws (0 + 4) (\<lambda>y. Some (\<lambda>x. Some Floor)) [] =
     Inr (\<lambda>y. Some (\<lambda>x. Some Floor), [], 4)"
proof -
  let ?full = "\<lambda>y::int. Some (\<lambda>x::int. Some Floor)"
  from demo_second obtain d where
    g: "generateDungeon 30 30 6 3 6 demoDraws 24 = Inr (d, 49)" and
    r: "rooms d = [\<lparr>cx = 22, cy = 22\<rparr>, \<lparr>cx = 2, cy = 2\<rparr>]"
    by (auto split: sum.splits)
  have f: "\<exists>p\<in>rectCells (1, 1, 3, 3). floorAt ?full (fst p) (snd p)"
    by (rule bexI [of _ "(1, 1)"]) (simp_all add: rectCells_def floorAt_def)
  have p: "placeRooms (Suc 0) 30 30 3 6 demoDraws 0 ?full [] = Inr (?full, [], 4)"
  proof -
    have u: "[1..3] = [1, 2, 3 :: int]" by (simp add: upto.simps)
    have "overlapRows [1..3] [1..3] ?full = Inr True"
      unfolding u by (simp add: cellIsFloor_def)
    then show ?thesis by (simp add: demo_candidate)
  qed
  have i: "(23, 23) \<in> rectCells (21, 21, 3, 3)" "(1, 3) \<in> rectCells (1, 1, 3, 3)"
    by (simp_all add: rectCells_def)
  note t = accepted_rooms_disjoint [of 30 30 6 3 6 demoDraws 24 d 49
      "[(21, 21, 3, 3), (1, 1, 3, 3)]" 0 1 1 3 3 ?full 0 "[]" "(?full, [], 4)"]
  from t g demo_accepted have
    "\<forall>c\<in>set [(21, 21, 3, 3), (1, 1, 3, 3)]. \<forall>p\<in>rectCells c. floorAt (grid d) (fst p) (snd p)"
    "\<forall>i j. i < j \<and> j < length [(21, 21, 3, 3), (1, 1, 3, 3 :: int)] \<longrightarrow>
       rectCells ([(21, 21, 3, 3), (1, 1, 3, 3)] ! i) \<inter>
       rectCells ([(21, 21, 3, 3), (1, 1, 3, 3)] ! j) = {}"
    by simp_all
  with i have "floorAt (grid d) 23 23" "floorAt (grid d) 1 3"
    "rectCells (21, 21, 3, 3) \<inter> rectCells (1, 1, 3, 3) = {}"
    by (force, force, fastforce)
  moreover from t demo_candidate f p
  have "placeRooms 0 30 30 3 6 demoDraws (0 + 4) ?full [] = Inr (?full, [], 4)"
    by blast
  moreover have "(1, 1) \<in> rectCells (1, 1, 3, 3)" "floorAt ?full 1 1"
    by (simp_all add: rectCells_def floorAt_def)
  ultimately show ?thesis
    using g r demo_candidate p by blast
qed

section \<open>The random source\<close>

lemma candidate_cong:
  assumes "\<And>i. k \<le> i \<Longrightarrow> i < k + 4 \<Longrightarrow> rnd1 i = rnd2 i"
  shows "candidate width height roomMin roomMax rnd1 k =
         candidate width height roomMin roomMax rnd2 k"
proof -
  have "rnd1 k = rnd2 k" "rnd1 (k + 1) = rnd2 (k + 1)" "rnd1 (k + 2) = rnd2 (k + 2)"
    "rnd1 (k + 3) = rnd2 (k + 3)"
    by (simp_all add: assms)
  then show ?thesis by (simp add: candidate_def)
qed

lemma placeRooms_cong:
  "(\<And>i. k \<le> i \<Longrightarrow> i < k + 4 * n \<Longrightarrow> rnd1 i = rnd2 i) \<Longrightarrow>
     placeRooms n width height roomMin roomMax rnd1 k g rs =
     placeRooms n width height roomMin roomMax rnd2 k g rs"
proof (induction n arbitrary: k g rs)
  case 0
  show ?case by simp
next
  case (Suc n)
  have c: "candidate width height roomMin roomMax rnd1 k =
           candidate width height roomMin roomMax rnd2 k"
    by (rule candidate_cong) (simp add: Suc.prems)
  have r: "placeRooms n width height roomMin roomMax rnd1 (k + 4) g' rs' =
           placeRooms n width height roomMin roomMax rnd2 (k + 4) g' rs'" for g' rs'
    by (rule Suc.IH) (simp add: Suc.prems)
  show ?case by (simp add: c r cong: sum.case_cong if_cong)
qed

lemma connectRooms_cong:
  "(\<And>i. k \<le> i \<Longrightarrow> i < k + (length rs - 1) \<Longrightarrow> rnd1 i = rnd2 i) \<Longrightarrow>
     connectRooms rs rnd1 k g = connectRooms rs rnd2 k g"
proof (induction rs rnd1 k g rule: connectRooms.induct)
  case (1 r1 r2 rs rnd1 k g)
  have c: "rnd1 k = rnd2 k"
    by (rule "1.prems") simp_all
  have r: "connectRooms (r2 # rs) rnd1 (Suc k) g' = connectRooms (r2 # rs) rnd2 (Suc k) g'"
    if "carveCorridor r1 r2 (rnd1 k < 1 / 2) g = Inr g'" for g'
    by (rule "1.IH" [OF that]) (simp add: "1.prems")
  show ?case
  proof (cases "carveCorridor r1 r2 (rnd2 k < 1 / 2) g")
    case (Inl e)
    then show ?thesis by (simp add: c)
  next
    case (Inr g')
    then have "carveCorridor r1 r2 (rnd1 k < 1 / 2) g = Inr g'" by (simp add: c)
    from r [OF this] Inr show ?thesis by (simp add: c)
  qed
qed simp_all

lemma placeRooms_length:
  "placeRooms n width height roomMin roomMax rnd k g rs = Inr (g', rs', k') \<Longrightarrow>
     length rs' \<le> length rs + n"
proof (induction n arbitrary: k g rs)
  case 0
  then show ?case by simp
next
  case (Suc n)
  obtain x y w h where c: "candidate width height roomMin roomMax rnd k = (x, y, w, h)"
    by (cases "candidate width height roomMin roomMax rnd k") auto
  from Suc.prems c obtain b where b: "overlapRows [y..y + h - 1] [x..x + w - 1] g = Inr b"
    by (auto split: sum.splits)
  show ?case
  proof (cases b)
    case True
    with Suc.prems c b have
      "placeRooms n width height roomMin roomMax rnd (k + 4) g rs = Inr (g', rs', k')"
      by simp
    from Suc.IH [OF this] show ?thesis by simp
  next
    case False
    with Suc.prems c b obtain g1 where
      "placeRooms n width height roomMin roomMax rnd (k + 4) g1 (rs @ [center (x, y, w, h)])
            = Inr (g', rs', k')"
      by (auto split: sum.splits)
    from Suc.IH [OF this] show ?thesis by simp
  qed
qed

text \<open>
  C5, as amended. \<open>generateDungeon\<close> has no seed or random-source parameter; it
  draws from the ambient \<^verbatim>\<open>Math.random()\<close>. What it returns is determined by its five
  parameters and by the draws it consumes, at most \<open>5 * maxRooms\<close> from the current
  position of the source: two sources that agree on these draws give the same grid,
  cell for cell, and the same room centres in the same order.
\<close>

theorem generateDungeon_draws:
  assumes "\<forall>i. k \<le> i \<and> i < k + 5 * nat maxRooms \<longrightarrow> rnd1 i = rnd2 i"
  shows "generateDungeon width height maxRooms roomMin roomMax rnd1 k =
         generateDungeon width height maxRooms roomMin roomMax rnd2 k"
proof -
  let ?p1 = "placeRooms (nat maxRooms) width height roomMin roomMax rnd1 k
               (initGrid width height) []"
  let ?p2 = "placeRooms (nat maxRooms) width height roomMin roomMax rnd2 k
               (initGrid width height) []"
  have p: "?p1 = ?p2"
    by (rule placeRooms_cong) (simp add: assms)
  show ?thesis
  proof (cases ?p1)
    case (Inl e)
    moreover from p Inl have "?p2 = Inl e" by simp
    ultimately show ?thesis by (simp add: generateDungeon_def)
  next
    case (Inr res)
    obtain g rs k1 where res: "res = (g, rs, k1)" by (cases res)
    from placeRooms_accepted [OF Inr [unfolded res]] placeRooms_length [OF Inr [unfolded res]]
    have k1: "k1 = k + 4 * nat maxRooms" and len: "length rs \<le> nat maxRooms"
      by simp_all
    have "connectRooms rs rnd1 k1 g = connectRooms rs rnd2 k1 g"
    proof (rule connectRooms_cong)
      fix i assume "k1 \<le> i" "i < k1 + (length rs - 1)"
      with k1 len have "k \<le> i \<and> i < k + 5 * nat maxRooms" by simp
      with assms show "rnd1 i = rnd2 i" by blast
    qed
    moreover from p Inr res have "?p2 = Inr (g, rs, k1)" by simp
    ultimately show ?thesis using Inr res by (simp add: generateDungeon_def)
  qed
qed

theorem generateDungeon_draws_witness:
  "generateDungeon 30 30 6 3 6 demoDraws 24 =
   generateDungeon 30 30 6 3 6 (\<lambda>i. if i < 24 \<or> 54 \<le> i then 1 / 2 else demoDraws i) 24 \<and>
   demoDraws 0 \<noteq> 1 / 2"
proof -
  have h: "\<forall>i. 24 \<le> i \<and> i < 24 + 5 * nat 6 \<longrightarrow>
             demoDraws i = (if i < 24 \<or> 54 \<le> i then 1 / 2 else demoDraws i)"
    by simp
  have "demoDraws 0 \<noteq> 1 / 2"
    by (simp add: demoDraws_def)
  with generateDungeon_draws [OF h] show ?thesis by blast
qed

text \<open>
  C5 as stated fails: two calls with the same five parameters, one after the other on
  the same page, return different room lists.
\<close>

theorem generateDungeon_not_seeded:
  "\<not> (\<forall>d1 k1 d2 k2.
        generateDungeon 30 30 6 3 6 demoDraws 0 = Inr (d1, k1) \<and>
        generateDungeon 30 30 6 3 6 demoDraws k1 = Inr (d2, k2) \<longrightarrow>
        grid d1 = grid d2 \<and> rooms d1 = rooms d2)"
proof
  assume a: "\<forall>d1 k1 d2 k2.
        generateDungeon 30 30 6 3 6 demoDraws 0 = Inr (d1, k1) \<and>
        generateDungeon 30 30 6 3 6 demoDraws k1 = Inr (d2, k2) \<longrightarrow>
        grid d1 = grid d2 \<and> rooms d1 = rooms d2"
  from demo_first obtain d1 where
    d1: "generateDungeon 30 30 6 3 6 demoDraws 0 = Inr (d1, 24)" "rooms d1 = [\<lparr>cx = 2, cy = 2\<rparr>]"
    by (auto split: sum.splits)
  from demo_second obtain d2 where
    d2: "generateDungeon 30 30 6 3 6 demoDraws 24 = Inr (d2, 49)"
      "rooms d2 = [\<lparr>cx = 22, cy = 22\<rparr>, \<lparr>cx = 2, cy = 2\<rparr>]"
    by (auto split: sum.splits)
  from a d1(1) d2(1) have "rooms d1 = rooms d2" by blast
  with d1(2) d2(2) show False by simp
qed

section \<open>Movement and collision\<close>

lemma enemyAttack_meshes:
  "playerMesh (enemyAttack now s) = playerMesh s \<and>
   enemyMesh (enemyAttack now s) = enemyMesh s \<and>
   dungeonGrid (enemyAttack now s) = dungeonGrid s"
  by (simp add: enemyAttack_cases)

lemma animate_playerMesh:
  "0 < playerHealth s \<Longrightarrow>
     playerMesh (animate deltaTime now s) =
       movePlayer (dungeonGrid s) (keys s) deltaTime (playerMesh s)"
  by (simp add: animate_def Let_def enemyAttack_meshes split: option.splits)

lemma animate_enemyMesh:
  "0 < playerHealth s \<Longrightarrow>
     enemyMesh (animate deltaTime now s) =
       (case enemyMesh s of
          None \<Rightarrow> None
        | Some e \<Rightarrow>
            Some (moveEnemy (dungeonGrid s) deltaTime
                    (movePlayer (dungeonGrid s) (keys s) deltaTime (playerMesh s)) e))"
  by (simp add: animate_def Let_def enemyAttack_meshes split: option.splits)

lemma movePlayer_axes:
  assumes "playerDir ks = (mx, mz)" and "m' = movePlayer g ks deltaTime m"
  shows "posX m' =
           (if mx \<noteq> 0 \<and>
               floorAt g \<lfloor>posX m + mx * (PLAYER_SPEED * deltaTime) + 1 / 2\<rfloor> \<lfloor>posZ m + 1 / 2\<rfloor>
            then posX m + mx * (PLAYER_SPEED * deltaTime) else posX m)"
    and "posZ m' =
           (if mz \<noteq> 0 \<and>
               floorAt g \<lfloor>posX m' + 1 / 2\<rfloor> \<lfloor>posZ m + mz * (PLAYER_SPEED * deltaTime) + 1 / 2\<rfloor>
            then posZ m + mz * (PLAYER_SPEED * deltaTime) else posZ m)"
  using assms by (simp_all add: movePlayer_def attemptX_def attemptZ_def Let_def)

lemma moveEnemy_axes:
  assumes "enemyStep deltaTime p e = (mx, mz)" and "e' = moveEnemy g deltaTime p e"
  shows "posX e' =
           (if mx \<noteq> 0 \<and> floorAt g \<lfloor>posX e + mx + 1 / 2\<rfloor> \<lfloor>posZ e + 1 / 2\<rfloor>
            then posX e + mx else posX e)"
    and "posZ e' =
           (if mz \<noteq> 0 \<and> floorAt g \<lfloor>posX e' + 1 / 2\<rfloor> \<lfloor>posZ e + mz + 1 / 2\<rfloor>
            then posZ e + mz else posZ e)"
  using assms by (simp_all add: moveEnemy_def attemptX_def attemptZ_def Let_def)

text \<open>
  C3. In a frame with the player alive, with \<open>(mx, mz)\<close> the normalised direction of
  the held keys and \<open>d\<close> the distance of the frame: the player's \<open>x\<close> becomes the
  candidate \<open>x + mx * d\<close> exactly when \<open>mx\<close> is not zero and the cell obtained by rounding
  the candidate and the current \<open>z\<close> with \<open>\<lfloor>v + 1/2\<rfloor>\<close> is a floor of the grid, and stays
  as it is otherwise; then the same holds for \<open>z\<close>, tested against the \<open>x\<close> the first
  step left. The enemy, if there is one, moves by the same rule with its own step
  \<open>(ex, ez)\<close> towards the player. A missing row or cell is not a floor, so a committed
  cell is inside the grid.
\<close>

theorem axis_independent_collision:
  assumes "0 < playerHealth s"
    and "g = dungeonGrid s" and "p = playerMesh s"
    and "p' = playerMesh (animate deltaTime now s)"
    and "playerDir (keys s) = (mx, mz)"
    and "d = PLAYER_SPEED * deltaTime"
  shows
    "posX p' =
       (if mx \<noteq> 0 \<and> floorAt g \<lfloor>posX p + mx * d + 1 / 2\<rfloor> \<lfloor>posZ p + 1 / 2\<rfloor>
        then posX p + mx * d else posX p) \<and>
     posZ p' =
       (if mz \<noteq> 0 \<and> floorAt g \<lfloor>posX p' + 1 / 2\<rfloor> \<lfloor>posZ p + mz * d + 1 / 2\<rfloor>
        then posZ p + mz * d else posZ p) \<and>
     (\<forall>e ex ez. enemyMesh s = Some e \<and> enemyStep deltaTime p' e = (ex, ez) \<longrightarrow>
        (\<exists>e'. enemyMesh (animate deltaTime now s) = Some e' \<and>
          posX e' =
            (if ex \<noteq> 0 \<and> floorAt g \<lfloor>posX e + ex + 1 / 2\<rfloor> \<lfloor>posZ e + 1 / 2\<rfloor>
             then posX e + ex else posX e) \<and>
          posZ e' =
            (if ez \<noteq> 0 \<and> floorAt g \<lfloor>posX e' + 1 / 2\<rfloor> \<lfloor>posZ e + ez + 1 / 2\<rfloor>
             then posZ e + ez else posZ e)))"
proof -
  have p': "p' = movePlayer g (keys s) deltaTime p"
    using assms by (simp add: animate_playerMesh)
  note pl = movePlayer_axes [OF assms(5) p']
  have en: "\<exists>e'. enemyMesh (animate deltaTime now s) = Some e' \<and>
          posX e' =
            (if ex \<noteq> 0 \<and> floorAt g \<lfloor>posX e + ex + 1 / 2\<rfloor> \<lfloor>posZ e + 1 / 2\<rfloor>
             then posX e + ex else posX e) \<and>
          posZ e' =
            (if ez \<noteq> 0 \<and> floorAt g \<lfloor>posX e' + 1 / 2\<rfloor> \<lfloor>posZ e + ez + 1 / 2\<rfloor>
             then posZ e + ez else posZ e)"
    if e: "enemyMesh s = Some e" and st: "enemyStep deltaTime p' e = (ex, ez)" for e ex ez
  proof -
    have "enemyMesh (animate deltaTime now s) = Some (moveEnemy g deltaTime p' e)"
      using assms(1,2,3) e p' by (simp add: animate_enemyMesh)
    with moveEnemy_axes [OF st refl, of g] show ?thesis by blast
  qed
  from pl en show ?thesis unfolding assms(6) by blast
qed

lemma roomGrid_cells:
  "\<not> floorAt roomGrid (- 2) 2" "\<not> floorAt roomGrid 0 3" "floorAt roomGrid 1 2"
  by code_simp+

theorem axis_independent_collision_witness:
  "0 < playerHealth arena \<and>
   playerDir (keys arena) = (- 1, 0) \<and>
   posX (playerMesh (animate 1 500 arena)) = 3 / 5 \<and>
   posZ (playerMesh (animate 1 500 arena)) = 11 / 5 \<and>
   enemyStep 1 (playerMesh (animate 1 500 arena)) \<lparr>posX = 6 / 5, posZ = 3\<rparr> = (- (9 / 10), - (6 / 5)) \<and>
   (\<exists>e'. enemyMesh (animate 1 500 arena) = Some e' \<and> posX e' = 6 / 5 \<and> posZ e' = 9 / 5)"
proof -
  have h: "0 < playerHealth arena" by (simp add: arena_def)
  have g: "roomGrid = dungeonGrid arena" by (simp add: arena_def)
  have dir: "playerDir (keys arena) = (- 1, 0)"
    by (simp add: arena_def playerDir_def)
  have sp: "3 = PLAYER_SPEED * 1" by (simp add: PLAYER_SPEED_def)
  note t = axis_independent_collision [OF h g refl refl dir sp, of 500]
  have px: "posX (playerMesh arena) = 3 / 5" and pz: "posZ (playerMesh arena) = 11 / 5"
    and em: "enemyMesh arena = Some \<lparr>posX = 6 / 5, posZ = 3\<rparr>"
    by (simp_all add: arena_def)
  from t have x: "posX (playerMesh (animate 1 500 arena)) = 3 / 5"
    by (simp add: px pz roomGrid_cells)
  from t have z: "posZ (playerMesh (animate 1 500 arena)) = 11 / 5"
    by (simp add: px pz)
  have st: "enemyStep 1 (playerMesh (animate 1 500 arena)) \<lparr>posX = 6 / 5, posZ = 3\<rparr>
      = (- (9 / 10), - (6 / 5))"
  proof -
    have "(3 / 5 - 6 / 5) * (3 / 5 - 6 / 5) + (11 / 5 - 3) * (11 / 5 - 3) = (1::real)"
      by simp
    then show ?thesis
      by (simp add: enemyStep_def x z ENEMY_SPEED_def Let_def)
  qed
  from t em st obtain e' where
    e: "enemyMesh (animate 1 500 arena) = Some e'" and
    ex: "posX e' =
            (if - (9 / 10) \<noteq> (0::real) \<and>
                floorAt roomGrid \<lfloor>posX \<lparr>posX = 6 / 5, posZ = 3\<rparr> + - (9 / 10) + 1 / 2\<rfloor>
                  \<lfloor>posZ \<lparr>posX = 6 / 5, posZ = 3\<rparr> + 1 / 2\<rfloor>
             then posX \<lparr>posX = 6 / 5, posZ = 3\<rparr> + - (9 / 10)
             else posX \<lparr>posX = 6 / 5, posZ = 3\<rparr>)" and
    ez: "posZ e' =
            (if - (6 / 5) \<noteq> (0::real) \<and>
                floorAt roomGrid \<lfloor>posX e' + 1 / 2\<rfloor>
                  \<lfloor>posZ \<lparr>posX = 6 / 5, posZ = 3\<rparr> + - (6 / 5) + 1 / 2\<rfloor>
             then posZ \<lparr>posX = 6 / 5, posZ = 3\<rparr> + - (6 / 5)
             else posZ \<lparr>posX = 6 / 5, posZ = 3\<rparr>)"
    by blast
  from ex have ex': "posX e' = 6 / 5" by (simp add: roomGrid_cells)
  from ez have "posZ e' = 9 / 5" by (simp add: ex' roomGrid_cells)
  with h dir x z st e ex' show ?thesis by blast
qed

section \<open>The generator on well-formed parameters\<close>







lemma generateDungeon_no_attempts:
  "generateDungeon width height 0 roomMin roomMax rnd k =
     Inr (\<lparr>grid = initGrid width height, rooms = []\<rparr>, k)"
  by (simp add: generateDungeon_def)


















section \<open>Actors on floor cells within one dungeon\<close>

text \<open>At page load both actors stand on floor cells of the collision grid, and a
  frame keeps them there.\<close>

lemma attemptX_onFloor: "onFloor g m \<Longrightarrow> onFloor g (attemptX g m newX)"
  by (simp add: onFloor_def attemptX_def Let_def)

lemma attemptZ_onFloor: "onFloor g m \<Longrightarrow> onFloor g (attemptZ g m newZ)"
  by (simp add: onFloor_def attemptZ_def Let_def)

lemma movePlayer_onFloor: "onFloor g m \<Longrightarrow> onFloor g (movePlayer g ks deltaTime m)"
  by (cases "playerDir ks")
     (simp add: movePlayer_def Let_def attemptX_onFloor attemptZ_onFloor)

lemma moveEnemy_onFloor: "onFloor g e \<Longrightarrow> onFloor g (moveEnemy g deltaTime p e)"
  by (cases "enemyStep deltaTime p e")
     (simp add: moveEnemy_def Let_def attemptX_onFloor attemptZ_onFloor)

lemma animate_dungeonGrid: "dungeonGrid (animate deltaTime now s) = dungeonGrid s"
  by (simp add: animate_def Let_def enemyAttack_meshes split: option.splits)

lemma animate_onFloor:
  assumes "onFloor (dungeonGrid s) (playerMesh s)"
    and "\<forall>e. enemyMesh s = Some e \<longrightarrow> onFloor (dungeonGrid s) e"
    and "s' = animate deltaTime now s"
  shows "onFloor (dungeonGrid s') (playerMesh s') \<and>
         (\<forall>e. enemyMesh s' = Some e \<longrightarrow> onFloor (dungeonGrid s') e)"
proof (cases "0 < playerHealth s")
  case True
  from assms(3) have g: "dungeonGrid s' = dungeonGrid s"
    by (simp add: animate_dungeonGrid)
  from True assms(1,3) have "onFloor (dungeonGrid s) (playerMesh s')"
    by (simp add: animate_playerMesh movePlayer_onFloor)
  moreover have "onFloor (dungeonGrid s) e" if "enemyMesh s' = Some e" for e
    using that True assms(2,3)
    by (auto simp: animate_enemyMesh moveEnemy_onFloor split: option.splits)
  ultimately show ?thesis using g by simp
next
  case False
  with assms show ?thesis by (simp add: animate_def)
qed




section \<open>Restart\<close>

lemma restartGame_dungeonGrid:
  assumes "restartGame rnd s = Inr s'"
  shows "dungeonGrid s' = dungeonGrid s"
proof (cases "generateDungeon DUNGEON_WIDTH DUNGEON_HEIGHT MAX_ROOMS ROOM_MIN_SIZE ROOM_MAX_SIZE
             rnd (randomPos s)")
  case (Inl e)
  with assms show ?thesis by (simp add: restartGame_def)
next
  case (Inr p)
  obtain d k where p: "p = (d, k)" by (cases p)
  from assms Inr p have "restartPlace d (s\<lparr>randomPos := k\<rparr>) = Inr s'"
    by (simp add: restartGame_def)
  then show ?thesis
    by (auto simp: restartPlace_def createPlayerAndEnemy_def Let_def
        split: option.splits sum.splits)
qed

lemma demo_session:
  "\<exists>d1 d2.
     generateDungeon 30 30 6 3 6 demoDraws 0 = Inr (d1, 24) \<and>
     generateDungeon 30 30 6 3 6 demoDraws 24 = Inr (d2, 49) \<and>
     rooms d2 = [\<lparr>cx = 22, cy = 22\<rparr>, \<lparr>cx = 2, cy = 2\<rparr>] \<and>
     \<not> floorAt (grid d1) 22 22 \<and> \<not> floorAt (grid d1) 21 22 \<and>
     floorAt (grid d2) 22 22 \<and> floorAt (grid d2) 21 22 \<and>
     session demoDraws demoEvents =
       Inr (restarted (grid d1))"
proof -
  from demo_first obtain d1 where
    d1: "generateDungeon 30 30 6 3 6 demoDraws 0 = Inr (d1, 24)"
      "rooms d1 = [\<lparr>cx = 2, cy = 2\<rparr>]" "\<not> floorAt (grid d1) 22 22" "\<not> floorAt (grid d1) 21 22"
    by (auto split: sum.splits)
  from demo_second obtain d2 where
    d2: "generateDungeon 30 30 6 3 6 demoDraws 24 = Inr (d2, 49)"
      "rooms d2 = [\<lparr>cx = 22, cy = 22\<rparr>, \<lparr>cx = 2, cy = 2\<rparr>]"
      "floorAt (grid d2) 22 22" "floorAt (grid d2) 21 22"
    by (auto split: sum.splits)
  have "session demoDraws demoEvents =
       Inr (restarted (grid d1))"
    by (simp add: session_def demoEvents_def startGame_def startPlace_def restartGame_def
        restartPlace_def createPlayerAndEnemy_def firstRoom_def lastRoom_def orElse_def
        meshAt_def keydown_def restarted_def animate_def movePlayer_def playerDir_def moveEnemy_def
        enemyStep_def enemyAttack_def Let_def d1 d2
        DUNGEON_WIDTH_def DUNGEON_HEIGHT_def MAX_ROOMS_def ROOM_MIN_SIZE_def ROOM_MAX_SIZE_def
        PLAYER_MAX_HEALTH_def ENEMY_MAX_HEALTH_def ENEMY_DAMAGE_def ATTACK_INTERVAL_def)
  with d1 d2 show ?thesis by blast
qed

text \<open>
  C1 fails on the code. In the session \<open>demoEvents\<close> the restart generates a new dungeon
  \<open>d\<close> and puts both actors, at full health, on the centres of its first and last room,
  but the collision grid is still the one of the first dungeon: the cell \<open>(21, 22)\<close> is a
  floor of \<open>d\<close> and a wall for the collision test, and the player's step to the left
  is dropped.
\<close>

theorem restart_keeps_stale_grid:
  "\<exists>s d k.
     session demoDraws demoEvents = Inr s \<and>
     generateDungeon DUNGEON_WIDTH DUNGEON_HEIGHT MAX_ROOMS ROOM_MIN_SIZE ROOM_MAX_SIZE
       demoDraws 24 = Inr (d, k) \<and>
     playerHealth s = PLAYER_MAX_HEALTH \<and> enemyHealth s = ENEMY_MAX_HEALTH \<and>
     firstRoom (rooms d) = Some \<lparr>cx = 22, cy = 22\<rparr> \<and>
     lastRoom (rooms d) = Some \<lparr>cx = 2, cy = 2\<rparr> \<and>
     playerMesh s = \<lparr>posX = 22, posZ = 22\<rparr> \<and>
     enemyMesh s = Some \<lparr>posX = 2, posZ = 2\<rparr> \<and>
     floorAt (grid d) 21 22 \<and> \<not> floorAt (dungeonGrid s) 21 22 \<and>
     playerMesh (animate (1 / 4) 10500 (s\<lparr>keys := (keys s)\<lparr>left := True\<rparr>\<rparr>)) = playerMesh s"
proof -
  from demo_session obtain d1 :: dungeon and d2 :: dungeon where
    d2: "generateDungeon 30 30 6 3 6 demoDraws 24 = Inr (d2, 49)"
      "rooms d2 = [\<lparr>cx = 22, cy = 22\<rparr>, \<lparr>cx = 2, cy = 2\<rparr>]" and
    f: "\<not> floorAt (grid d1) 21 22" "floorAt (grid d2) 21 22" and
    s: "session demoDraws demoEvents =
       Inr (restarted (grid d1))"
    by blast
  have m: "playerMesh (animate (1 / 4) 10500
       ((restarted (grid d1))\<lparr>keys := (keys (restarted (grid d1)))\<lparr>left := True\<rparr>\<rparr>))
       = \<lparr>posX = 22, posZ = 22\<rparr>"
    using f(1)
    by (simp add: animate_playerMesh movePlayer_def playerDir_def attemptX_def
        PLAYER_SPEED_def Let_def restarted_def)
  show ?thesis
    using s d2 f m
    by (simp add: DUNGEON_WIDTH_def DUNGEON_HEIGHT_def MAX_ROOMS_def ROOM_MIN_SIZE_def
        ROOM_MAX_SIZE_def PLAYER_MAX_HEALTH_def ENEMY_MAX_HEALTH_def firstRoom_def lastRoom_def
        restarted_def)
qed

text \<open>
  C4 fails on the code across a restart. At the end of the session \<open>demoEvents\<close> the
  player is alive and its rounded position is not a floor cell of the collision grid.
\<close>

theorem player_on_wall_after_restart:
  "\<exists>s. session demoDraws demoEvents = Inr s \<and> 0 < playerHealth s \<and>
        \<not> floorAt (dungeonGrid s) \<lfloor>posX (playerMesh s) + 1 / 2\<rfloor> \<lfloor>posZ (playerMesh s) + 1 / 2\<rfloor>"
proof -
  from demo_session obtain d1 :: dungeon and d2 :: dungeon where
    f: "\<not> floorAt (grid d1) 22 22" and
    s: "session demoDraws demoEvents =
       Inr (restarted (grid d1))"
    by blast
  have "\<lfloor>(22::real) + 1 / 2\<rfloor> = 22" by linarith
  with s f show ?thesis by (simp add: restarted_def)
qed




end
